theory Spec2Isabelle
  imports Main "HOL-Library.Word"
begin

section \<open>JavaScript values\<close>

text \<open>
  A JavaScript string is a sequence of UTF-16 code units. String literals of the source
  are written \<open>lit ''...''\<close>.

  A JavaScript Number is an IEEE 754 double. The numbers of the program are integers,
  infinite or NaN: a finite one is \<open>Finite i\<close> with the integer \<open>i\<close> that the double
  denotes, and every operation rounds its exact result to the nearest double, ties to
  the even significand, as the platform does.
\<close>

type_synonym jschar = "16 word"
type_synonym jsstring = "jschar list"

definition lit :: "string \<Rightarrow> jsstring" where
  "lit s = map of_char s"

text \<open>The regular expression class \<open>\d\<close> (no unicode flag): \<open>0\<close> to \<open>9\<close>.\<close>

definition is_digit :: "jschar \<Rightarrow> bool" where
  "is_digit c = (0x30 \<le> c \<and> c \<le> 0x39)"

text \<open>
  The class \<open>\s\<close>, which is also what \<open>String.prototype.trim\<close> strips: the WhiteSpace
  and LineTerminator code points of ECMAScript.
\<close>

definition is_space :: "jschar \<Rightarrow> bool" where
  "is_space c =
     (c = 0x09 \<or> c = 0x0A \<or> c = 0x0B \<or> c = 0x0C \<or> c = 0x0D \<or> c = 0x20 \<or> c = 0xA0
      \<or> c = 0x1680 \<or> (0x2000 \<le> c \<and> c \<le> 0x200A) \<or> c = 0x2028 \<or> c = 0x2029
      \<or> c = 0x202F \<or> c = 0x205F \<or> c = 0x3000 \<or> c = 0xFEFF)"

text \<open>The class \<open>[<>:"/\\|?*\x00-\x1f]\<close> of \<open>sanitizeFilename\<close> (script.js).\<close>

definition forbidden :: "jschar \<Rightarrow> bool" where
  "forbidden c =
     (c = 0x3C \<or> c = 0x3E \<or> c = 0x3A \<or> c = 0x22 \<or> c = 0x2F \<or> c = 0x5C \<or> c = 0x7C
      \<or> c = 0x3F \<or> c = 0x2A \<or> c \<le> 0x1F)"

text \<open>The class \<open>[0-9a-zA-Z.-]\<close> of \<open>validateInputs\<close> (script.js).\<close>

definition weight_char :: "jschar \<Rightarrow> bool" where
  "weight_char c =
     ((0x30 \<le> c \<and> c \<le> 0x39) \<or> (0x61 \<le> c \<and> c \<le> 0x7A) \<or> (0x41 \<le> c \<and> c \<le> 0x5A)
      \<or> c = 0x2E \<or> c = 0x2D)"

text \<open>\<open>String.prototype.trim\<close>.\<close>

definition trim :: "jsstring \<Rightarrow> jsstring" where
  "trim s = rev (dropWhile is_space (rev (dropWhile is_space s)))"

datatype jsnumber = Finite int | PosInfinity | NegInfinity | NaN

text \<open>
  The Number value for a non-negative integer. Below \<open>2 ^ 53\<close> every integer is a
  double. From there on 53 significant bits are kept and the rest is rounded to nearest,
  ties to even; what reaches \<open>2 ^ 1024\<close> is infinite.
\<close>

function bit_length :: "int \<Rightarrow> nat" where
  "bit_length n = (if n \<le> 0 then 0 else Suc (bit_length (n div 2)))"
  by pat_completeness auto
termination
  by (relation "measure nat") auto

declare bit_length.simps [simp del]

definition nearest_double :: "int \<Rightarrow> int" where
  "nearest_double n =
     (if n < 2 ^ 53 then n
      else let e = bit_length n - 53;
               q = n div 2 ^ e;
               r = n mod 2 ^ e;
               h = 2 ^ (e - 1)
           in (if h < r \<or> (r = h \<and> odd q) then q + 1 else q) * 2 ^ e)"

definition number_value :: "int \<Rightarrow> jsnumber" where
  "number_value i =
     (let m = nearest_double \<bar>i\<bar>
      in if 2 ^ 1024 \<le> m then (if 0 \<le> i then PosInfinity else NegInfinity)
         else Finite (if 0 \<le> i then m else - m))"

text \<open>
  \<open>x + y\<close>, \<open>- x\<close>, \<open>x - y\<close>, \<open>x < y\<close> and \<open>Math.max\<close> of two numbers. The exact
  sum of two doubles is rounded.
\<close>

fun js_add :: "jsnumber \<Rightarrow> jsnumber \<Rightarrow> jsnumber" where
  "js_add (Finite a) (Finite b) = number_value (a + b)"
| "js_add NaN y = NaN"
| "js_add x NaN = NaN"
| "js_add PosInfinity NegInfinity = NaN"
| "js_add NegInfinity PosInfinity = NaN"
| "js_add PosInfinity y = PosInfinity"
| "js_add x PosInfinity = PosInfinity"
| "js_add NegInfinity y = NegInfinity"
| "js_add x NegInfinity = NegInfinity"

fun js_negate :: "jsnumber \<Rightarrow> jsnumber" where
  "js_negate (Finite a) = Finite (- a)"
| "js_negate PosInfinity = NegInfinity"
| "js_negate NegInfinity = PosInfinity"
| "js_negate NaN = NaN"

definition js_subtract :: "jsnumber \<Rightarrow> jsnumber \<Rightarrow> jsnumber" where
  "js_subtract x y = js_add x (js_negate y)"

fun js_less :: "jsnumber \<Rightarrow> jsnumber \<Rightarrow> bool" where
  "js_less (Finite a) (Finite b) = (a < b)"
| "js_less (Finite a) PosInfinity = True"
| "js_less NegInfinity (Finite b) = True"
| "js_less NegInfinity PosInfinity = True"
| "js_less x y = False"

fun js_max :: "jsnumber \<Rightarrow> jsnumber \<Rightarrow> jsnumber" where
  "js_max NaN y = NaN"
| "js_max x NaN = NaN"
| "js_max x y = (if js_less x y then y else x)"

text \<open>Truthiness of a number (\<open>x || y\<close>, \<open>if (x)\<close>): zero and NaN are falsy.\<close>

definition truthy :: "jsnumber \<Rightarrow> bool" where
  "truthy v = (v \<noteq> Finite 0 \<and> v \<noteq> NaN)"

fun positive :: "jsnumber \<Rightarrow> bool" where
  "positive (Finite n) = (0 < n)"
| "positive PosInfinity = True"
| "positive NegInfinity = False"
| "positive NaN = False"

text \<open>
  \<open>parseInt\<close> of a string of decimal digits (the only strings the program passes to it)
  and the conversion of such a string to a number by \<open>-\<close>: the Number value for the
  integer that the digits denote.
\<close>

definition digit_value :: "jschar \<Rightarrow> int" where
  "digit_value c = uint c - 48"

definition decimal_value :: "jsstring \<Rightarrow> int" where
  "decimal_value ds = foldl (\<lambda>n c. 10 * n + digit_value c) 0 ds"

definition parseInt :: "jsstring \<Rightarrow> jsnumber" where
  "parseInt ds = number_value (decimal_value ds)"

definition toNumber :: "jsstring \<Rightarrow> jsnumber" where
  "toNumber ds = number_value (decimal_value ds)"

text \<open>
  The conversion of a number to a string, as a template literal and the assignment to
  \<open>value\<close> of a form control perform it. An integer below \<open>2 ^ 53\<close> is printed with its
  decimal digits. Above, the digits are the shortest that convert back to the same
  double (the closest to it when there is a choice), followed by zeros up to 21 digits
  and in exponent notation beyond: \<open>shortest_digits x m\<close> looks for such digits with
  as many zeros behind them as possible, at most \<open>m\<close>.
\<close>

definition digit_char :: "int \<Rightarrow> jschar" where
  "digit_char d = word_of_int (48 + d)"

function decimal :: "int \<Rightarrow> jsstring" where
  "decimal n =
     (if n < 10 then [digit_char n]
      else decimal (n div 10) @ [digit_char (n mod 10)])"
  by pat_completeness auto
termination
  by (relation "measure nat") auto

declare decimal.simps [simp del]

fun shortest_digits :: "int \<Rightarrow> nat \<Rightarrow> int \<times> nat" where
  "shortest_digits x 0 = (x, 0)"
| "shortest_digits x (Suc m) =
     (let p = 10 ^ Suc m;
          lo = x div p;
          hi = lo + 1;
          lo_ok = (0 < lo \<and> nearest_double (lo * p) = x);
          hi_ok = (nearest_double (hi * p) = x)
      in if lo_ok \<and> (\<not> hi_ok \<or> x - lo * p \<le> hi * p - x) then (lo, Suc m)
         else if hi_ok then (hi, Suc m)
         else shortest_digits x m)"

definition render :: "int \<Rightarrow> jsstring" where
  "render x =
     (if x < 2 ^ 53 then decimal x
      else let sm = shortest_digits x (length (decimal x));
               ds = decimal (fst sm);
               n = length ds + snd sm
           in if n \<le> 21 then ds @ replicate (snd sm) 0x30
              else hd ds # (if tl ds = [] then [] else 0x2E # tl ds)
                   @ lit ''e+'' @ decimal (int (n - 1)))"

definition numberToString :: "jsnumber \<Rightarrow> jsstring" where
  "numberToString v =
     (case v of
        NaN \<Rightarrow> lit ''NaN''
      | PosInfinity \<Rightarrow> lit ''Infinity''
      | NegInfinity \<Rightarrow> lit ''-Infinity''
      | Finite i \<Rightarrow> if i < 0 then lit ''-'' @ render (- i) else render i)"


text \<open>
  A template literal prints a property that is missing from an object as the text
  \<open>undefined\<close>.
\<close>

definition template_value :: "jsstring option \<Rightarrow> jsstring" where
  "template_value v = (case v of None \<Rightarrow> lit ''undefined'' | Some x \<Rightarrow> x)"

text \<open>
  \<open>Map.prototype.set\<close> and the assignment \<open>obj[k] = v\<close>: an existing key keeps its
  place, a new key is added at the end.
\<close>

primrec assign :: "'k \<Rightarrow> 'v \<Rightarrow> ('k \<times> 'v) list \<Rightarrow> ('k \<times> 'v) list" where
  "assign k v [] = [(k, v)]"
| "assign k v (p # ps) = (if fst p = k then (k, v) # ps else p # assign k v ps)"

text \<open>
  \<open>s.split(sep)\<close> for a separator of one code unit, and \<open>s.split('.').pop()\<close>. The
  array that \<open>split\<close> returns is never empty, so \<open>pop\<close> is its last element.
\<close>

fun split :: "jschar \<Rightarrow> jsstring \<Rightarrow> jsstring list" where
  "split sep [] = [[]]"
| "split sep (c # cs) =
     (if c = sep then [] # split sep cs
      else (case split sep cs of [] \<Rightarrow> [[c]] | seg # segs \<Rightarrow> (c # seg) # segs))"

definition split_pop :: "jsstring \<Rightarrow> jsstring" where
  "split_pop s = last (split 0x2E s)"


text \<open>
  \<open>Array.prototype.sort\<close> with a comparator is a stable sort: \<open>x\<close> moves behind \<open>y\<close>
  only when the comparator returns a positive number for \<open>(x, y)\<close>. It is modelled by
  stable insertion.
\<close>

fun insert_by :: "('a \<Rightarrow> 'a \<Rightarrow> jsnumber) \<Rightarrow> 'a \<Rightarrow> 'a list \<Rightarrow> 'a list" where
  "insert_by cmp x [] = [x]"
| "insert_by cmp x (y # ys) =
     (if positive (cmp x y) then y # insert_by cmp x ys else x # y # ys)"

definition array_sort :: "('a \<Rightarrow> 'a \<Rightarrow> jsnumber) \<Rightarrow> 'a list \<Rightarrow> 'a list" where
  "array_sort cmp xs = foldr (insert_by cmp) xs []"

text \<open>
  \<open>String.prototype.localeCompare\<close> is the collation of the platform. Functions that
  call it take it as the parameter \<open>lc\<close>. \<open>codeUnitCompare\<close> is the collation that
  compares code unit by code unit.
\<close>

fun codeUnitCompare :: "jsstring \<Rightarrow> jsstring \<Rightarrow> int" where
  "codeUnitCompare [] [] = 0"
| "codeUnitCompare [] (d # ds) = - 1"
| "codeUnitCompare (c # cs) [] = 1"
| "codeUnitCompare (c # cs) (d # ds) =
     (if c < d then - 1 else if d < c then 1 else codeUnitCompare cs ds)"

section \<open>app.js: the variant with an implementer field\<close>

record image_file =
  name :: jsstring
  content :: "8 word list"

record entry =
  newName :: jsstring
  extension :: jsstring
  blob :: image_file

type_synonym table = "(jsstring \<times> jsstring) list"

type_synonym ledger = "(jsstring \<times> entry) list"

text \<open>
  \<open>AppState\<close>, without \<open>currentPreviewUrl\<close> (a handle of the preview, in the second copy
  of the application only).
\<close>

record AppState =
  materials :: table
  processingMethods :: table
  implementers :: table
  materialCategories :: "(jsstring \<times> jsstring list) list"
  materialNameToId :: table
  imageFiles :: "image_file list"
  currentIndex :: nat
  processedFiles :: ledger
  isReady :: bool

text \<open>The values of the form controls that the functions read by \<open>getElementById\<close>.\<close>

record Document =
  numberInput :: jsstring
  implementerSelect :: jsstring
  partNameInput :: jsstring
  weightInput :: jsstring
  unitSelect :: jsstring
  materialCategorySelect :: jsstring
  materialSelect :: jsstring
  processingSelect :: jsstring
  photoTypeSelect :: jsstring
  notesSelect :: jsstring

datatype error = ValidationFailed | TypeError

subsection \<open>naturalSort\<close>

text \<open>
  \<open>a.replace(/(\d+)|(\D+)/g, ...)\<close> cuts the name into maximal runs of digits and of
  other code units, and pushes \<open>[$1 || Infinity, $2 || '']\<close> for each run.
\<close>

datatype chunk_key = Digits jsstring | Infinity

type_synonym chunk = "chunk_key \<times> jsstring"

function chunks :: "jsstring \<Rightarrow> chunk list" where
  "chunks [] = []"
| "chunks (c # cs) =
     (if is_digit c
      then (Digits (c # takeWhile is_digit cs), []) # chunks (dropWhile is_digit cs)
      else (Infinity, c # takeWhile (\<lambda>d. \<not> is_digit d) cs)
             # chunks (dropWhile (\<lambda>d. \<not> is_digit d) cs))"
  by pat_completeness auto
termination
  by (relation "measure length") (auto simp: length_dropWhile_le less_Suc_eq_le)

text \<open>
  \<open>an[0] - bn[0]\<close>: a digit string is converted to a number, and the difference is that
  of two numbers.
\<close>

fun key_number :: "chunk_key \<Rightarrow> jsnumber" where
  "key_number (Digits a) = toNumber a"
| "key_number Infinity = PosInfinity"

definition js_minus :: "chunk_key \<Rightarrow> chunk_key \<Rightarrow> jsnumber" where
  "js_minus x y = js_subtract (key_number x) (key_number y)"


fun naturalSort_loop ::
  "(jsstring \<Rightarrow> jsstring \<Rightarrow> int) \<Rightarrow> chunk list \<Rightarrow> chunk list \<Rightarrow> jsnumber" where
  "naturalSort_loop lc (an # ax) (bn # bx) =
     (let d = js_minus (fst an) (fst bn);
          nn = (if truthy d then d else Finite (lc (snd an) (snd bn)))
      in if truthy nn then nn else naturalSort_loop lc ax bx)"
| "naturalSort_loop lc ax bx = Finite (int (length ax) - int (length bx))"

definition naturalSort :: "(jsstring \<Rightarrow> jsstring \<Rightarrow> int) \<Rightarrow> jsstring \<Rightarrow> jsstring \<Rightarrow> jsnumber" where
  "naturalSort lc a b = naturalSort_loop lc (chunks a) (chunks b)"

subsection \<open>getNextNumber\<close>

text \<open>\<open>data.newName.match(/^(\d+)_/)\<close>: the digits of the match, if there is one.\<close>

definition match_number :: "jsstring \<Rightarrow> jsstring option" where
  "match_number s =
     (let ds = takeWhile is_digit s
      in if ds \<noteq> [] \<and> take 1 (dropWhile is_digit s) = [0x5F] then Some ds else None)"

text \<open>
  \<open>numberCounts[num] = (numberCounts[num] || 0) + 1\<close>. The key of a number in the
  object is its string, and different numbers have different strings.
\<close>

definition count_up :: "jsnumber \<Rightarrow> (jsnumber \<times> jsnumber) list \<Rightarrow> (jsnumber \<times> jsnumber) list" where
  "count_up num numberCounts =
     assign num
       (js_add
          (case map_of numberCounts num of
             None \<Rightarrow> Finite 0
           | Some c \<Rightarrow> if truthy c then c else Finite 0)
          (Finite 1))
       numberCounts"

definition countNumbers :: "ledger \<Rightarrow> (jsnumber \<times> jsnumber) list" where
  "countNumbers pf =
     fold (\<lambda>(originalName, data) numberCounts.
             case match_number (newName data) of
               None \<Rightarrow> numberCounts
             | Some ds \<Rightarrow> count_up (parseInt ds) numberCounts) pf []"

text \<open>
  \<open>Math.max(...Object.keys(numberCounts).map(Number))\<close>. \<open>Number\<close> gives back the
  number that a key was made from. \<open>Object.keys\<close> lists the keys in an order of its own,
  which plays no part: \<open>Math.max\<close> is NaN when an argument is NaN, the greatest argument
  otherwise, and minus infinity for no argument.
\<close>

definition math_max :: "jsnumber list \<Rightarrow> jsnumber" where
  "math_max xs = fold (\<lambda>x m. js_max m x) xs NegInfinity"

text \<open>
  \<open>numberCounts[maxNumber] < 2\<close> is false when the property is missing, since
  \<open>undefined < 2\<close> is false.
\<close>

definition getNextNumber :: "ledger \<Rightarrow> jsnumber" where
  "getNextNumber pf =
     (let numberCounts = countNumbers pf
      in if length (map fst numberCounts) = 0 then Finite 1
         else let maxNumber = math_max (map fst numberCounts)
              in if (case map_of numberCounts maxNumber of
                       None \<Rightarrow> False
                     | Some c \<Rightarrow> js_less c (Finite 2))
                 then maxNumber else js_add maxNumber (Finite 1))"


subsection \<open>validateForm, generateFilename, applyAndNext\<close>

definition validateForm :: "Document \<Rightarrow> bool" where
  "validateForm d =
     (trim (partNameInput d) \<noteq> [] \<and> trim (weightInput d) \<noteq> [] \<and> implementerSelect d \<noteq> []
      \<and> materialSelect d \<noteq> [] \<and> processingSelect d \<noteq> [])"

definition generateFilename :: "AppState \<Rightarrow> Document \<Rightarrow> jsstring" where
  "generateFilename s d =
     (let number = (if numberInput d \<noteq> [] then numberInput d
                    else numberToString (getNextNumber (processedFiles s)));
          implementer = implementerSelect d;
          partName = trim (partNameInput d);
          weight = trim (weightInput d);
          unit = unitSelect d;
          material = materialSelect d;
          processing = processingSelect d;
          photoType = photoTypeSelect d;
          notes = notesSelect d
      in if partName = [] \<or> weight = [] \<or> implementer = [] \<or> material = [] \<or> processing = []
         then []
         else let implementerId = map_of (implementers s) implementer;
                  materialId = map_of (materialNameToId s) material;
                  processingId = map_of (processingMethods s) processing
              in number @ lit ''_'' @ partName @ lit ''_'' @ weight @ lit ''_'' @ unit
                 @ lit ''_'' @ template_value materialId
                 @ lit ''_'' @ template_value processingId
                 @ lit ''_'' @ template_value implementerId
                 @ lit ''_'' @ photoType @ lit ''_'' @ notes)"

definition autoSetNumber :: "AppState \<Rightarrow> Document \<Rightarrow> Document" where
  "autoSetNumber s d = d\<lparr>numberInput := numberToString (getNextNumber (processedFiles s))\<rparr>"

text \<open>
  \<open>applyAndNext\<close>. A form that is not valid returns after the alert. Without a current
  image \<open>file.name\<close> throws a TypeError, which the function catches. In both cases the
  state is as before. \<open>fullFilename\<close> is the name \<open>downloadZip\<close> gives the file, which is
  \<open>fullNewFilename\<close> of \<open>applyAndNext\<close>.
\<close>

definition applyAndNext :: "AppState \<times> Document \<Rightarrow> error + AppState \<times> Document" where
  "applyAndNext sd =
     (let s = fst sd; d = snd sd
      in if \<not> validateForm d then Inl ValidationFailed
         else if length (imageFiles s) \<le> currentIndex s then Inl TypeError
         else let file = imageFiles s ! currentIndex s;
                  newFilename = generateFilename s d;
                  ext = split_pop (name file);
                  s1 = s\<lparr>processedFiles :=
                           assign (name file)
                             \<lparr>newName = newFilename, extension = ext, blob = file\<rparr>
                             (processedFiles s)\<rparr>
              in if int (currentIndex s1) < int (length (imageFiles s1)) - 1
                 then let s2 = s1\<lparr>currentIndex := currentIndex s1 + 1\<rparr>
                      in Inr (s2, autoSetNumber s2 d)
                 else Inr (s1, d))"

definition fullFilename :: "entry \<Rightarrow> jsstring" where
  "fullFilename data = newName data @ lit ''.'' @ extension data"

text \<open>\<open>handleImageUpload\<close>, with \<open>checkReadyState\<close> inlined.\<close>

definition checkReadyState :: "AppState \<Rightarrow> AppState" where
  "checkReadyState s =
     (let hasExcel = (materials s \<noteq> [] \<and> processingMethods s \<noteq> [] \<and> implementers s \<noteq> []);
          hasImages = (imageFiles s \<noteq> [])
      in s\<lparr>isReady := hasExcel \<and> hasImages\<rparr>)"

definition handleImageUpload ::
  "(jsstring \<Rightarrow> jsstring \<Rightarrow> int) \<Rightarrow> AppState \<times> Document \<Rightarrow> image_file list
     \<Rightarrow> AppState \<times> Document" where
  "handleImageUpload lc sd files =
     (let s = fst sd; d = snd sd
      in if length files = 0 then (s, d)
         else let sorted = array_sort (\<lambda>a b. naturalSort lc (name a) (name b)) files;
                  s1 = checkReadyState
                         (s\<lparr>imageFiles := sorted, currentIndex := 0, processedFiles := []\<rparr>)
              in if isReady s1 then (s1, autoSetNumber s1 d) else (s1, d))"

section \<open>script.js: the variant without an implementer field\<close>

text \<open>
  \<open>state\<close>, without \<open>materialsData\<close>, \<open>processingData\<close> and \<open>persistedData\<close>, which no
  function reads or writes. Names that app.js uses too carry the suffix \<open>_s\<close>.
\<close>

record state =
  materials_s :: table
  materialCategories_s :: "(jsstring \<times> jsstring list) list"
  materialNameToId_s :: table
  processing :: table
  images :: "image_file list"
  currentIndex_s :: nat
  renamedFiles :: "(jsstring \<times> jsstring) list"

text \<open>The values of the form controls in \<open>dom\<close>.\<close>

record dom =
  inputPartName :: jsstring
  inputWeight :: jsstring
  inputUnit :: jsstring
  inputCategory :: jsstring
  inputMaterial :: jsstring
  inputProcessing :: jsstring
  inputPhotoType :: jsstring
  inputNotes :: jsstring

record input_values =
  v_partName :: jsstring
  v_weight :: jsstring
  v_unit :: jsstring
  v_category :: jsstring
  v_material :: jsstring
  v_processing :: jsstring
  v_photoType :: jsstring
  v_notes :: jsstring

definition isReady_s :: "state \<Rightarrow> bool" where
  "isReady_s st = (0 < length (materials_s st) \<and> 0 < length (processing st) \<and> 0 < length (images st))"

definition getInputValues :: "dom \<Rightarrow> input_values" where
  "getInputValues d =
     \<lparr>v_partName = trim (inputPartName d),
      v_weight = trim (inputWeight d),
      v_unit = inputUnit d,
      v_category = inputCategory d,
      v_material = inputMaterial d,
      v_processing = inputProcessing d,
      v_photoType = inputPhotoType d,
      v_notes = inputNotes d\<rparr>"

text \<open>\<open>/^[0-9a-zA-Z.-]+$/.test(values.weight)\<close>.\<close>

definition weight_test :: "jsstring \<Rightarrow> bool" where
  "weight_test w = (w \<noteq> [] \<and> list_all weight_char w)"

definition validateInputs :: "dom \<Rightarrow> bool" where
  "validateInputs d =
     (let values = getInputValues d
      in v_partName values \<noteq> [] \<and> v_weight values \<noteq> [] \<and> weight_test (v_weight values)
         \<and> v_category values \<noteq> [] \<and> v_material values \<noteq> [] \<and> v_processing values \<noteq> [])"

text \<open>\<open>str.replace(/\s+/g, ' ')\<close>: every maximal run of white space becomes one space.\<close>

function collapse_spaces :: "jsstring \<Rightarrow> jsstring" where
  "collapse_spaces [] = []"
| "collapse_spaces (c # cs) =
     (if is_space c then 0x20 # collapse_spaces (dropWhile is_space cs)
      else c # collapse_spaces cs)"
  by pat_completeness auto
termination
  by (relation "measure length") (auto simp: length_dropWhile_le less_Suc_eq_le)

definition sanitizeFilename :: "jsstring \<Rightarrow> jsstring" where
  "sanitizeFilename str =
     (if str = [] then lit ''untitled''
      else trim (collapse_spaces (filter (\<lambda>c. \<not> forbidden c) str)))"

text \<open>\<open>table[key] || '???'\<close>: a missing or empty identifier gives the placeholder.\<close>

definition or_placeholder :: "jsstring option \<Rightarrow> jsstring" where
  "or_placeholder v = (case v of None \<Rightarrow> lit ''???'' | Some x \<Rightarrow> if x = [] then lit ''???'' else x)"

definition generateNewFilename :: "state \<Rightarrow> dom \<Rightarrow> jsstring" where
  "generateNewFilename st d =
     (if \<not> isReady_s st then []
      else let v = getInputValues d
           in if v_partName v = [] \<or> v_material v = [] \<or> v_processing v = [] then lit ''...''
              else let partName = sanitizeFilename (v_partName v);
                       weight = sanitizeFilename (v_weight v);
                       matId = or_placeholder (map_of (materialNameToId_s st) (v_material v));
                       procId = or_placeholder (map_of (processing st) (v_processing v));
                       number = js_add (Finite (int (currentIndex_s st))) (Finite 1)
                   in numberToString number @ lit ''_'' @ partName @ lit ''_'' @ weight
                      @ lit ''_'' @ v_unit v @ lit ''_'' @ matId @ lit ''_'' @ procId
                      @ lit ''_'' @ v_photoType v @ lit ''_'' @ v_notes v)"

text \<open>
  \<open>applyAndNext\<close> of script.js. Without a current image \<open>currentFile.name\<close> throws a
  TypeError before anything is written.
\<close>

definition applyAndNext_s :: "state \<times> dom \<Rightarrow> error + state" where
  "applyAndNext_s sd =
     (let st = fst sd; d = snd sd
      in if \<not> validateInputs d then Inl ValidationFailed
         else if length (images st) \<le> currentIndex_s st then Inl TypeError
         else let currentFile = images st ! currentIndex_s st;
                  newNameBase = generateNewFilename st d;
                  ext = split_pop (name currentFile);
                  newFullname = newNameBase @ lit ''.'' @ ext;
                  st1 = st\<lparr>renamedFiles := assign (name currentFile) newFullname (renamedFiles st)\<rparr>
              in if int (currentIndex_s st1) < int (length (images st1)) - 1
                 then Inr (st1\<lparr>currentIndex_s := currentIndex_s st1 + 1\<rparr>)
                 else Inr st1)"

text \<open>\<open>handleImagesLoad\<close>: the files are sorted by \<open>localeCompare\<close> of their names.\<close>

definition handleImagesLoad :: "(jsstring \<Rightarrow> jsstring \<Rightarrow> int) \<Rightarrow> state \<Rightarrow> image_file list \<Rightarrow> state" where
  "handleImagesLoad lc st files =
     (if length files = 0 then st
      else st\<lparr>images := array_sort (\<lambda>a b. Finite (lc (name a) (name b))) files,
              currentIndex_s := 0,
              renamedFiles := []\<rparr>)"

section \<open>The numbering rule as the specification words it\<close>

text \<open>
  The leading integer of an assigned name: the text before the first underscore, when
  there is an underscore and that text is a non-empty string of digits.
\<close>

definition spec_leading_integer :: "jsstring \<Rightarrow> int option" where
  "spec_leading_integer s =
     (let p = takeWhile (\<lambda>c. c \<noteq> 0x5F) s
      in if 0x5F \<in> set s \<and> p \<noteq> [] \<and> list_all is_digit p then Some (decimal_value p) else None)"

definition spec_numbers :: "ledger \<Rightarrow> int list" where
  "spec_numbers pf =
     List.map_filter (\<lambda>(originalName, data). spec_leading_integer (newName data)) pf"

text \<open>
  No number yet: 1. Otherwise, with \<open>M\<close> the maximum: \<open>M\<close> when it occurs fewer than two
  times, \<open>M + 1\<close> when it occurs two or more times.
\<close>

definition spec_pair_rule :: "int list \<Rightarrow> int" where
  "spec_pair_rule ns =
     (if ns = [] then 1
      else let M = Max (set ns) in if count_list ns M < 2 then M else M + 1)"

definition spec_computeNextNumber :: "ledger \<Rightarrow> int" where
  "spec_computeNextNumber pf = spec_pair_rule (spec_numbers pf)"

text \<open>
  Confirmation in forward order: \<open>getNextNumber\<close> is called, and the number it returns is
  recorded as \<open>applyAndNext\<close> records it, under the name of the image and in front of the
  other fields of the new name, before the next call. \<open>forwardNumbers\<close> lists the
  numbers returned. \<open>rule_trace\<close> is the same run on the list of numbers alone.
\<close>

text \<open>The fields of a generated name of app.js behind the number and its underscore.\<close>

definition otherFields :: "AppState \<Rightarrow> Document \<Rightarrow> jsstring" where
  "otherFields s d =
     trim (partNameInput d) @ lit ''_'' @ trim (weightInput d) @ lit ''_'' @ unitSelect d
     @ lit ''_'' @ template_value (map_of (materialNameToId s) (materialSelect d))
     @ lit ''_'' @ template_value (map_of (processingMethods s) (processingSelect d))
     @ lit ''_'' @ template_value (map_of (implementers s) (implementerSelect d))
     @ lit ''_'' @ photoTypeSelect d @ lit ''_'' @ notesSelect d"

definition recordNumber :: "jsnumber \<Rightarrow> jsstring \<times> image_file \<Rightarrow> ledger \<Rightarrow> ledger" where
  "recordNumber n img pf =
     (case img of (rest, f) \<Rightarrow>
        assign (name f)
          \<lparr>newName = numberToString n @ lit ''_'' @ rest,
           extension = split_pop (name f), blob = f\<rparr>
          pf)"


fun rule_trace :: "int list \<Rightarrow> nat \<Rightarrow> int list" where
  "rule_trace ns 0 = []"
| "rule_trace ns (Suc k) = spec_pair_rule ns # rule_trace (ns @ [spec_pair_rule ns]) k"

section \<open>Example data\<close>

definition example_file :: "string \<Rightarrow> image_file" where
  "example_file n = \<lparr>name = lit n, content = []\<rparr>"

definition example_entry :: "string \<Rightarrow> string \<Rightarrow> jsstring \<times> entry" where
  "example_entry original new =
     (lit original,
      \<lparr>newName = lit new, extension = split_pop (lit original), blob = example_file original\<rparr>)"

text \<open>A ledger with a repeated number, a gap, a name without a number and one without an underscore.\<close>

definition example_ledger :: ledger where
  "example_ledger =
     [example_entry ''a.jpg'' ''7_Bracket_1_kg_M01_P02_I03_P_0'',
      example_entry ''b.jpg'' ''memo_Bracket_1_kg_M01_P02_I03_P_0'',
      example_entry ''c.jpg'' ''7_Bracket_1_kg_M01_P02_I03_P_0'',
      example_entry ''d.jpg'' ''3_Bracket_1_kg_M01_P02_I03_P_0'',
      example_entry ''e.jpg'' ''12'']"

text \<open>
  Ledgers with leading integers at \<open>2 ^ 53\<close> and next to it, and a sequence of images
  in which a name comes three times.
\<close>

definition unsafe_ledger :: ledger where
  "unsafe_ledger =
     [example_entry ''a.jpg'' ''9007199254740992_Bracket_1_kg_M01_P02_I03_P_0'',
      example_entry ''b.jpg'' ''9007199254740992_Bracket_1_kg_M01_P02_I03_P_0'']"





text \<open>A confirmed image's full name in the ledger of app.js, if there is one.\<close>

definition assigned_full_name :: "error + AppState \<times> Document \<Rightarrow> jsstring \<Rightarrow> jsstring option" where
  "assigned_full_name r original =
     (case r of Inl e \<Rightarrow> None
      | Inr sd \<Rightarrow> map_option fullFilename (map_of (processedFiles (fst sd)) original))"

text \<open>The same for script.js.\<close>

definition assigned_full_name_s :: "error + state \<Rightarrow> jsstring \<Rightarrow> jsstring option" where
  "assigned_full_name_s r original =
     (case r of Inl e \<Rightarrow> None | Inr st \<Rightarrow> map_of (renamedFiles st) original)"

text \<open>
  The scenario of the specification: the lookup tables, one image \<open>IMG_001.jpg\<close>, an
  empty ledger and the form values, for app.js and for script.js.
\<close>

definition scenario_state :: AppState where
  "scenario_state =
     \<lparr>materials = [(lit ''Aluminum'', lit ''M01'')],
      processingMethods = [(lit ''Anodize'', lit ''P02'')],
      implementers = [(lit ''Alice'', lit ''I03'')],
      materialCategories = [(lit ''Metal'', [lit ''Aluminum''])],
      materialNameToId = [(lit ''Aluminum'', lit ''M01'')],
      imageFiles = [example_file ''IMG_001.jpg''],
      currentIndex = 0,
      processedFiles = [],
      isReady = True\<rparr>"

definition scenario_form :: Document where
  "scenario_form =
     \<lparr>numberInput = [],
      implementerSelect = lit ''Alice'',
      partNameInput = lit ''Bracket'',
      weightInput = lit ''12.5'',
      unitSelect = lit ''kg'',
      materialCategorySelect = lit ''Metal'',
      materialSelect = lit ''Aluminum'',
      processingSelect = lit ''Anodize'',
      photoTypeSelect = lit ''P'',
      notesSelect = lit ''0''\<rparr>"

definition scenario_state_s :: state where
  "scenario_state_s =
     \<lparr>materials_s = [(lit ''Aluminum'', lit ''M01'')],
      materialCategories_s = [(lit ''Metal'', [lit ''Aluminum''])],
      materialNameToId_s = [(lit ''Aluminum'', lit ''M01'')],
      processing = [(lit ''Anodize'', lit ''P02'')],
      images = [example_file ''IMG_001.jpg''],
      currentIndex_s = 0,
      renamedFiles = []\<rparr>"

definition scenario_dom :: dom where
  "scenario_dom =
     \<lparr>inputPartName = lit ''Bracket'',
      inputWeight = lit ''12.5'',
      inputUnit = lit ''kg'',
      inputCategory = lit ''Metal'',
      inputMaterial = lit ''Aluminum'',
      inputProcessing = lit ''Anodize'',
      inputPhotoType = lit ''P'',
      inputNotes = lit ''0''\<rparr>"

text \<open>Three confirmations in a row, each on the result of the one before.\<close>

definition confirm :: "error + AppState \<times> Document \<Rightarrow> error + AppState \<times> Document" where
  "confirm r = (case r of Inl e \<Rightarrow> Inl e | Inr sd \<Rightarrow> applyAndNext sd)"

definition three_images :: "image_file list" where
  "three_images = map example_file [''c.jpg'', ''a.jpg'', ''b.jpg'']"

definition example_names :: "string list" where
  "example_names = [''img10.jpg'', ''img2.jpg'', ''img1.jpg'']"

section \<open>Required fields as the specification words them\<close>

text \<open>
  Part name not empty after trimming; weight not empty after trimming and made of digits,
  ASCII letters, \<open>.\<close> and \<open>-\<close> only; material, processing and implementer selected.
\<close>

definition spec_required_fields_valid :: "Document \<Rightarrow> bool" where
  "spec_required_fields_valid d =
     (trim (partNameInput d) \<noteq> []
      \<and> trim (weightInput d) \<noteq> [] \<and> list_all weight_char (trim (weightInput d))
      \<and> materialSelect d \<noteq> [] \<and> processingSelect d \<noteq> [] \<and> implementerSelect d \<noteq> [])"

section \<open>Auxiliary notions\<close>

text \<open>
  A string in which every white space code unit is a single space between two other code
  units or at an end, and the part of \<open>sanitizeFilename\<close> that handles a string that is
  not empty.
\<close>

fun ws_normal :: "jsstring \<Rightarrow> bool" where
  "ws_normal [] = True"
| "ws_normal [c] = (is_space c \<longrightarrow> c = 0x20)"
| "ws_normal (c # d # cs) = ((is_space c \<longrightarrow> c = 0x20 \<and> \<not> is_space d) \<and> ws_normal (d # cs))"

definition clean :: "jsstring \<Rightarrow> jsstring" where
  "clean s = trim (collapse_spaces (filter (\<lambda>c. \<not> forbidden c) s))"


text \<open>
  The numbers that \<open>getNextNumber\<close> reads from a ledger, in the order of the entries,
  and a count of \<open>c\<close> occurrences as the number that the count object holds: counting
  up by one stops at \<open>2 ^ 53\<close>.
\<close>

definition parsed_numbers :: "ledger \<Rightarrow> jsnumber list" where
  "parsed_numbers pf =
     List.map_filter (\<lambda>(originalName, data). map_option parseInt (match_number (newName data))) pf"

definition counted :: "nat \<Rightarrow> jsnumber" where
  "counted c = Finite (min (int c) (2 ^ 53))"

section \<open>Properties\<close>


subsection \<open>Association lists\<close>

lemma map_of_assign: "map_of (assign k v al) = (map_of al)(k \<mapsto> v)"
  by (induction al) (auto simp: fun_eq_iff)

lemma keys_assign: "fst ` set (assign k v al) = insert k (fst ` set al)"
  by (induction al) auto


lemma filter_assign: "filter (\<lambda>p. fst p \<noteq> k) (assign k v al) = filter (\<lambda>p. fst p \<noteq> k) al"
  by (induction al) auto

lemma map_of_assign_other: "k' \<noteq> k \<Longrightarrow> map_of (assign k v al) k' = map_of al k'"
  by (simp add: map_of_assign)

lemma map_of_assign_same: "map_of (assign k v al) k = Some v"
  by (simp add: map_of_assign)

subsection \<open>Digits and numbers\<close>

lemma underscore_not_digit: "\<not> is_digit 0x5F"
  by (simp add: is_digit_def)




lemma digit_value_nonneg: "is_digit c \<Longrightarrow> 0 \<le> digit_value c"
  by (simp add: is_digit_def digit_value_def word_le_def)



lemma decimal_value_snoc: "decimal_value (ds @ [c]) = 10 * decimal_value ds + digit_value c"
  by (simp add: decimal_value_def)

lemma decimal_value_nonneg: "list_all is_digit ds \<Longrightarrow> 0 \<le> decimal_value ds"
  by (induction ds rule: rev_induct) (simp_all add: decimal_value_snoc digit_value_nonneg, simp add: decimal_value_def)


lemma nearest_double_safe: "n < 2 ^ 53 \<Longrightarrow> nearest_double n = n"
  by (simp add: nearest_double_def)

lemma nearest_double_limit:
  "nearest_double (2 ^ 53) = 2 ^ 53" "nearest_double (2 ^ 53 + 1) = 2 ^ 53"
  by code_simp+

lemma number_value_safe: "0 \<le> n \<Longrightarrow> n \<le> 2 ^ 53 \<Longrightarrow> number_value n = Finite n"
proof -
  assume a: "0 \<le> n" "n \<le> 2 ^ 53"
  have "nearest_double n = n"
    using a(2) nearest_double_safe [of n] nearest_double_limit(1) by (cases "n = 2 ^ 53") auto
  moreover have "(2::int) ^ 53 < 2 ^ 1024" by simp
  ultimately show ?thesis using a by (simp add: number_value_def)
qed


lemma parseInt_safe:
  "list_all is_digit ds \<Longrightarrow> decimal_value ds < 2 ^ 53 \<Longrightarrow> parseInt ds = Finite (decimal_value ds)"
  by (simp add: parseInt_def number_value_safe decimal_value_nonneg)

text \<open>From \<open>2 ^ 53\<close> on, integers are rounded to the nearest double and printed as such.\<close>

lemma number_examples:
  "parseInt (lit ''9007199254740993'') = Finite 9007199254740992"
  "js_add (Finite 9007199254740992) (Finite 1) = Finite 9007199254740992"
  "js_add (Finite 9007199254740992) (Finite 2) = Finite 9007199254740994"
  "numberToString (Finite 9007199254740992) = lit ''9007199254740992''"
  "numberToString (Finite 72057594037927936) = lit ''72057594037927940''"
  "numberToString (number_value (2 ^ 100)) = lit ''1.2676506002282294e+30''"
  by code_simp+


subsection \<open>The numbering rule\<close>

lemma match_number_digits: "match_number s = Some ds \<Longrightarrow> list_all is_digit ds"
  by (auto simp: match_number_def Let_def list_all_iff split: if_splits dest: set_takeWhileD)

lemma match_number_spec: "map_option decimal_value (match_number s) = spec_leading_integer s"
proof (cases "dropWhile is_digit s")
  case Nil
  then have all: "list_all is_digit s"
    by (simp add: list_all_iff)
  then have "0x5F \<notin> set s"
    using underscore_not_digit by (auto simp: list_all_iff)
  moreover have "match_number s = None"
    unfolding match_number_def Nil by simp
  ultimately show ?thesis
    by (simp add: spec_leading_integer_def)
next
  case (Cons c cs)
  have s: "s = takeWhile is_digit s @ c # cs"
    using Cons takeWhile_dropWhile_id [of is_digit s] by simp
  have nd: "\<not> is_digit c"
    using Cons by (metis hd_dropWhile list.sel(1) list.distinct(1))
  show ?thesis
  proof (cases "c = 0x5F")
    case True
    have "takeWhile (\<lambda>c. c \<noteq> 0x5F) s = takeWhile is_digit s"
      apply (subst s)
      apply (subst takeWhile_append2)
      using underscore_not_digit True apply (auto dest: set_takeWhileD)
      done
    moreover have "0x5F \<in> set s" using s True by (metis in_set_conv_decomp)
    moreover have "list_all is_digit (takeWhile is_digit s)"
      by (auto simp: list_all_iff dest: set_takeWhileD)
    ultimately show ?thesis using Cons True
      by (simp add: match_number_def spec_leading_integer_def Let_def)
  next
    case False
    have "\<not> list_all is_digit (takeWhile (\<lambda>c. c \<noteq> 0x5F) s) \<or> takeWhile (\<lambda>c. c \<noteq> 0x5F) s = []"
    proof (cases "takeWhile is_digit s = []")
      case True
      with s have "s = c # cs" by simp
      then show ?thesis using nd False by (cases "c = 0x5F") (auto)
    next
      case F2: False
      have "takeWhile (\<lambda>c. c \<noteq> 0x5F) s = takeWhile is_digit s @ c # takeWhile (\<lambda>c. c \<noteq> 0x5F) cs"
        apply (subst s)
        apply (subst takeWhile_append2)
        using underscore_not_digit False apply (auto dest: set_takeWhileD)
        done
      then show ?thesis using nd by (simp add: list_all_iff)
    qed
    then show ?thesis using Cons False
      by (auto simp add: match_number_def spec_leading_integer_def Let_def)
  qed
qed

lemma spec_leading_integer_nonneg: "spec_leading_integer s = Some m \<Longrightarrow> 0 \<le> m"
  by (auto simp: spec_leading_integer_def Let_def decimal_value_nonneg split: if_splits)

lemma spec_numbers_nonneg: "m \<in> set (spec_numbers pf) \<Longrightarrow> 0 \<le> m"
  by (induction pf) (auto simp: spec_numbers_def split: option.splits dest: spec_leading_integer_nonneg)

lemma countNumbers_fold:
  "fold (\<lambda>(originalName, data) numberCounts.
             case match_number (newName data) of
               None \<Rightarrow> numberCounts
             | Some ds \<Rightarrow> count_up (parseInt ds) numberCounts) pf acc
   = fold count_up (parsed_numbers pf) acc"
proof (induction pf arbitrary: acc)
  case Nil
  then show ?case by (simp add: parsed_numbers_def)
next
  case (Cons p pf)
  obtain k data where p: "p = (k, data)" by (cases p)
  show ?case
    using Cons [of "case match_number (newName data) of None \<Rightarrow> acc | Some ds \<Rightarrow> count_up (parseInt ds) acc"]
    by (cases "match_number (newName data)") (auto simp: p parsed_numbers_def)
qed

lemma parsed_numbers_safe:
  "\<forall>m\<in>set (spec_numbers pf). m < 2 ^ 53 \<Longrightarrow> parsed_numbers pf = map Finite (spec_numbers pf)"
proof (induction pf)
  case Nil
  then show ?case by (simp add: parsed_numbers_def spec_numbers_def)
next
  case (Cons p pf)
  obtain k data where p: "p = (k, data)" by (cases p)
  show ?case
  proof (cases "match_number (newName data)")
    case None
    then have n: "spec_leading_integer (newName data) = None"
      using match_number_spec [of "newName data"] by simp
    have "\<forall>m\<in>set (spec_numbers pf). m < 2 ^ 53"
      using Cons.prems n by (simp add: p spec_numbers_def)
    then have "parsed_numbers pf = map Finite (spec_numbers pf)" by (rule Cons.IH)
    then show ?thesis using None n by (simp add: p parsed_numbers_def spec_numbers_def)
  next
    case (Some ds)
    then have n: "spec_leading_integer (newName data) = Some (decimal_value ds)"
      using match_number_spec [of "newName data"] by simp
    have b: "decimal_value ds < 2 ^ 53" and r: "\<forall>m\<in>set (spec_numbers pf). m < 2 ^ 53"
      using Cons.prems n by (simp_all add: p spec_numbers_def)
    have "parseInt ds = Finite (decimal_value ds)"
      using match_number_digits [OF Some] b by (rule parseInt_safe)
    moreover have "parsed_numbers pf = map Finite (spec_numbers pf)" using r by (rule Cons.IH)
    ultimately show ?thesis using Some n by (simp add: p parsed_numbers_def spec_numbers_def)
  qed
qed

lemma number_value_past_limit: "number_value (2 ^ 53 + 1) = Finite (2 ^ 53)"
  by code_simp

lemma counted_succ: "js_add (counted c) (Finite 1) = counted (Suc c)"
proof (cases "int c < 2 ^ 53")
  case True
  then have "number_value (int c + 1) = Finite (int c + 1)"
    by (intro number_value_safe) simp_all
  then show ?thesis using True by (simp add: counted_def min_def)
next
  case False
  then show ?thesis using number_value_past_limit by (simp add: counted_def min_def)
qed

lemma counted_zero: "counted 0 = Finite 0"
  by (simp add: counted_def)

lemma truthy_counted: "0 < c \<Longrightarrow> truthy (counted c)"
  by (simp add: counted_def truthy_def min_def)

lemma js_less_counted: "js_less (counted c) (Finite 2) \<longleftrightarrow> c < 2"
  by (auto simp: counted_def min_def)

lemma counts_lookup:
  "map_of (fold count_up ks []) k =
     (if k \<in> set ks then Some (counted (count_list ks k)) else None)"
proof (induction ks arbitrary: k rule: rev_induct)
  case Nil
  then show ?case by simp
next
  case (snoc x ks)
  let ?acc = "fold count_up ks []"
  have old: "(case map_of ?acc x of None \<Rightarrow> Finite 0 | Some c \<Rightarrow> if truthy c then c else Finite 0)
      = counted (count_list ks x)"
  proof (cases "x \<in> set ks")
    case True
    then have "0 < count_list ks x" by (metis count_list_0_iff gr0I)
    then show ?thesis using True snoc by (simp add: truthy_counted)
  next
    case False
    then show ?thesis using snoc by (simp add: counted_zero count_list_0_iff)
  qed
  have "map_of (fold count_up (ks @ [x]) []) k
      = ((map_of ?acc)(x \<mapsto> counted (Suc (count_list ks x)))) k"
    by (simp add: count_up_def map_of_assign old counted_succ)
  then show ?case using snoc by auto
qed

lemma counts_keys: "fst ` set (fold count_up ks []) = set ks"
  by (induction ks rule: rev_induct) (auto simp: count_up_def keys_assign)

lemma fold_js_max_finite:
  "fold (\<lambda>x m. js_max m x) (map Finite ns) (Finite a) = Finite (fold max ns a)"
  by (induction ns arbitrary: a) (auto simp: max_def)

lemma math_max_finite: "ns \<noteq> [] \<Longrightarrow> math_max (map Finite ns) = Finite (Max (set ns))"
  by (cases ns) (simp_all add: math_max_def fold_js_max_finite Max.set_eq_fold [symmetric])

lemma math_max_set:
  assumes "set xs = Finite ` set ns" and "ns \<noteq> []"
  shows "math_max xs = Finite (Max (set ns))"
proof -
  have "\<forall>x\<in>set xs. \<exists>i. x = Finite i" using assms(1) by auto
  then obtain js where xs: "xs = map Finite js" by (metis ex_map_conv)
  have "Finite ` set js = Finite ` set ns" using assms(1) xs by simp
  then have s: "set js = set ns" by (simp add: inj_image_eq_iff inj_on_def)
  then have "js \<noteq> []" using assms(2) by auto
  then show ?thesis using math_max_finite [of js] s xs by simp
qed

lemma count_list_Finite: "count_list (map Finite ns) (Finite m) = count_list ns m"
  by (induction ns) auto

lemma getNextNumber_none: "parsed_numbers pf = [] \<Longrightarrow> getNextNumber pf = Finite 1"
  by (simp add: getNextNumber_def countNumbers_def countNumbers_fold)

lemma getNextNumber_some:
  assumes "\<forall>m\<in>set (spec_numbers pf). m < 2 ^ 53" and "spec_numbers pf \<noteq> []"
  shows "getNextNumber pf =
           Finite (if count_list (spec_numbers pf) (Max (set (spec_numbers pf))) < 2
                   then Max (set (spec_numbers pf)) else Max (set (spec_numbers pf)) + 1)"
proof -
  let ?ns = "spec_numbers pf"
  let ?M = "Max (set ?ns)"
  have cn: "countNumbers pf = fold count_up (map Finite ?ns) []"
    using assms(1) by (simp add: countNumbers_def countNumbers_fold parsed_numbers_safe)
  have keys: "set (map fst (countNumbers pf)) = Finite ` set ?ns"
    using counts_keys [of "map Finite ?ns"] by (simp add: cn)
  then have ne: "map fst (countNumbers pf) \<noteq> []"
    using assms(2) by (metis image_is_empty set_empty)
  have mx: "math_max (map fst (countNumbers pf)) = Finite ?M"
    using keys assms(2) by (rule math_max_set)
  have Min: "?M \<in> set ?ns"
    using assms(2) by simp
  then have lk: "map_of (countNumbers pf) (Finite ?M) = Some (counted (count_list ?ns ?M))"
    by (simp add: cn counts_lookup count_list_Finite)
  have "0 \<le> ?M" "?M < 2 ^ 53"
    using Min assms(1) spec_numbers_nonneg by blast+
  then have "number_value (?M + 1) = Finite (?M + 1)"
    by (intro number_value_safe) simp_all
  then show ?thesis using ne
    by (simp add: getNextNumber_def mx lk js_less_counted Let_def)
qed

lemma parsed_numbers_empty: "spec_numbers pf = [] \<Longrightarrow> parsed_numbers pf = []"
  using parsed_numbers_safe [of pf] by simp


text \<open>
  Claim C1, for ledgers whose leading integers are all below \<open>2 ^ 53\<close>: \<open>getNextNumber\<close>
  returns 1 when no assigned name has a leading integer; otherwise, with \<open>M\<close> the greatest
  leading integer, it returns \<open>M\<close> when \<open>M\<close> occurs fewer than two times and \<open>M + 1\<close> when
  it occurs two or more times. Names without a leading integer before the first
  underscore are left out: \<open>getNextNumber\<close> is a total function and \<open>spec_numbers\<close> does
  not list them.
\<close>

theorem getNextNumber_spec:
  assumes "\<forall>m\<in>set (spec_numbers pf). m < 2 ^ 53"
  shows "getNextNumber pf = Finite (spec_computeNextNumber pf)"
proof (cases "spec_numbers pf = []")
  case True
  then have "getNextNumber pf = Finite 1"
    by (simp add: getNextNumber_none parsed_numbers_empty)
  moreover have "spec_computeNextNumber pf = 1"
    using True by (simp add: spec_computeNextNumber_def spec_pair_rule_def)
  ultimately show ?thesis by simp
next
  case False
  let ?M = "Max (set (spec_numbers pf))"
  have "getNextNumber pf = Finite (if count_list (spec_numbers pf) ?M < 2 then ?M else ?M + 1)"
    using assms False by (rule getNextNumber_some)
  moreover have "spec_computeNextNumber pf = (if count_list (spec_numbers pf) ?M < 2 then ?M else ?M + 1)"
    using False by (simp add: spec_computeNextNumber_def spec_pair_rule_def Let_def)
  ultimately show ?thesis by simp
qed

text \<open>
  Claim C1 says so for every ledger. The numbers of the code are doubles: when \<open>2 ^ 53\<close>
  has been given to two images, the greatest leading integer occurs two times and
  \<open>getNextNumber\<close> returns \<open>2 ^ 53\<close> again, not \<open>2 ^ 53 + 1\<close>.
\<close>

theorem getNextNumber_unsafe:
  "spec_numbers unsafe_ledger = [9007199254740992, 9007199254740992]
   \<and> spec_computeNextNumber unsafe_ledger = 9007199254740993
   \<and> getNextNumber unsafe_ledger = Finite 9007199254740992"
  by code_simp

theorem getNextNumber_spec_witness:
  "spec_numbers example_ledger = [7, 7, 3] \<and> spec_computeNextNumber example_ledger = 8
   \<and> getNextNumber example_ledger = Finite 8"
proof -
  have n: "spec_numbers example_ledger = [7, 7, 3]"
    by code_simp
  then have b: "\<forall>m\<in>set (spec_numbers example_ledger). m < 2 ^ 53"
    by simp
  have "spec_computeNextNumber example_ledger = 8"
    by code_simp
  then show ?thesis
    using n getNextNumber_spec [OF b] by simp
qed


subsection \<open>Numbers in forward order\<close>













lemma length_rule_trace: "length (rule_trace ns k) = k"
  by (induction k arbitrary: ns) auto



text \<open>
  \<open>recordNumber\<close> is what \<open>applyAndNext\<close> does to the ledger when the number field is
  empty or holds the number that \<open>autoSetNumber\<close> has put there, and \<open>applyAndNext\<close>
  leaves the number field in that state when it moves on to the next image.
\<close>

lemma generateFilename_valid:
  assumes "validateForm d"
  shows "generateFilename s d =
           (if numberInput d \<noteq> [] then numberInput d
            else numberToString (getNextNumber (processedFiles s)))
           @ lit ''_'' @ otherFields s d"
  using assms by (simp add: generateFilename_def validateForm_def otherFields_def Let_def)

lemma applyAndNext_recordNumber:
  assumes "validateForm d" and "currentIndex s < length (imageFiles s)"
    and "numberInput d = [] \<or> numberInput d = numberToString (getNextNumber (processedFiles s))"
  shows "\<exists>sd'. applyAndNext (s, d) = Inr sd'
           \<and> processedFiles (fst sd')
               = recordNumber (getNextNumber (processedFiles s))
                   (otherFields s d, imageFiles s ! currentIndex s) (processedFiles s)"
proof -
  have "generateFilename s d = numberToString (getNextNumber (processedFiles s)) @ lit ''_'' @ otherFields s d"
    using assms(3) generateFilename_valid [OF assms(1), of s] by auto
  then show ?thesis
    using assms(1,2) by (simp add: applyAndNext_def recordNumber_def Let_def)
qed

lemma applyAndNext_autoSetNumber:
  assumes "applyAndNext (s, d) = Inr sd'" and "currentIndex (fst sd') \<noteq> currentIndex s"
  shows "numberInput (snd sd') = numberToString (getNextNumber (processedFiles (fst sd')))"
  using assms
  by (auto simp add: applyAndNext_def Let_def autoSetNumber_def split: if_splits)

text \<open>
  At the last image the cursor stays, and the same image can be confirmed again: the
  entry under its name is replaced, and the number is the same each time.
\<close>

lemma repeated_confirmation:
  "map (\<lambda>r. assigned_full_name r (lit ''IMG_001.jpg''))
     [applyAndNext (scenario_state, scenario_form),
      confirm (applyAndNext (scenario_state, scenario_form)),
      confirm (confirm (applyAndNext (scenario_state, scenario_form)))]
   = map (\<lambda>n. Some (lit n))
       [''1_Bracket_12.5_kg_M01_P02_I03_P_0.jpg'',
        ''1_Bracket_12.5_kg_M01_P02_I03_P_0.jpg'',
        ''1_Bracket_12.5_kg_M01_P02_I03_P_0.jpg'']"
  by code_simp





subsection \<open>White space and forbidden characters\<close>

lemma space_is_space: "is_space 0x20"
  by (simp add: is_space_def)

lemma space_not_forbidden: "\<not> forbidden 0x20"
  by (simp add: forbidden_def)

lemma collapse_spaces_Cons_nonspace: "\<not> is_space c \<Longrightarrow> collapse_spaces (c # cs) = c # collapse_spaces cs"
  by simp

lemma collapse_spaces_dropWhile_head:
  "collapse_spaces (dropWhile is_space cs) = d # r \<Longrightarrow> \<not> is_space d"
proof (cases "dropWhile is_space cs")
  case Nil
  assume "collapse_spaces (dropWhile is_space cs) = d # r"
  then show ?thesis unfolding Nil by simp
next
  case (Cons x xs)
  assume a: "collapse_spaces (dropWhile is_space cs) = d # r"
  have "\<not> is_space x" using Cons by (metis hd_dropWhile list.sel(1) list.distinct(1))
  then show ?thesis using a Cons by simp
qed

lemma ws_normal_collapse: "ws_normal (collapse_spaces s)"
proof (induction s rule: collapse_spaces.induct)
  case 1
  then show ?case by simp
next
  case (2 c cs)
  show ?case
  proof (cases "is_space c")
    case True
    then have n: "ws_normal (collapse_spaces (dropWhile is_space cs))" using 2 by simp
    show ?thesis
    proof (cases "collapse_spaces (dropWhile is_space cs)")
      case Nil
      then show ?thesis using True by simp
    next
      case (Cons d r)
      then have "\<not> is_space d" by (rule collapse_spaces_dropWhile_head)
      then show ?thesis using True n Cons by simp
    qed
  next
    case False
    then have n: "ws_normal (collapse_spaces cs)" using 2 by simp
    then show ?thesis using False by (cases "collapse_spaces cs") simp_all
  qed
qed

lemma collapse_spaces_normal: "ws_normal s \<Longrightarrow> collapse_spaces s = s"
proof (induction s rule: ws_normal.induct)
  case 1
  then show ?case by simp
next
  case (2 c)
  then show ?case by simp
next
  case (3 c d cs)
  then show ?case by auto
qed

lemma ws_normal_append_left: "ws_normal (xs @ ys) \<Longrightarrow> ws_normal xs"
proof (induction xs rule: ws_normal.induct)
  case 1
  then show ?case by simp
next
  case (2 c)
  then show ?case by (cases ys) auto
next
  case (3 c d cs)
  then show ?case by auto
qed

lemma ws_normal_append_right: "ws_normal (xs @ ys) \<Longrightarrow> ws_normal ys"
proof (induction xs rule: ws_normal.induct)
  case 1
  then show ?case by simp
next
  case (2 c)
  then show ?case by (cases ys) auto
next
  case (3 c d cs)
  then show ?case by auto
qed

lemma trim_decompose:
  "s = takeWhile is_space s @ trim s @ rev (takeWhile is_space (rev (dropWhile is_space s)))"
proof -
  let ?t = "dropWhile is_space s"
  have "rev ?t = takeWhile is_space (rev ?t) @ dropWhile is_space (rev ?t)" by simp
  then have "?t = rev (dropWhile is_space (rev ?t)) @ rev (takeWhile is_space (rev ?t))"
    by (metis rev_append rev_rev_ident)
  then have "?t = trim s @ rev (takeWhile is_space (rev ?t))" by (simp add: trim_def)
  moreover have "s = takeWhile is_space s @ ?t" by simp
  ultimately show ?thesis by metis
qed

lemma ws_normal_trim: "ws_normal s \<Longrightarrow> ws_normal (trim s)"
  using trim_decompose [of s] ws_normal_append_left ws_normal_append_right by metis

lemma set_trim: "set (trim s) \<subseteq> set s"
  using trim_decompose [of s] by (metis Un_upper1 Un_upper2 set_append subset_trans)

lemma trim_last: "trim s \<noteq> [] \<Longrightarrow> \<not> is_space (last (trim s))"
  unfolding trim_def by (simp add: last_rev hd_dropWhile)

lemma trim_hd: "trim s \<noteq> [] \<Longrightarrow> \<not> is_space (hd (trim s))"
proof -
  assume ne: "trim s \<noteq> []"
  let ?t = "dropWhile is_space s"
  have t: "?t = trim s @ rev (takeWhile is_space (rev ?t))"
    using trim_decompose [of s] takeWhile_dropWhile_id [of is_space s]
    by (metis same_append_eq)
  then have "?t \<noteq> []" using ne by (metis append_is_Nil_conv)
  then have "\<not> is_space (hd ?t)" by (rule hd_dropWhile)
  moreover have "hd ?t = hd (trim s)" using t ne by (metis hd_append2)
  ultimately show ?thesis by simp
qed

lemma trim_fixed: "s = [] \<or> (\<not> is_space (hd s) \<and> \<not> is_space (last s)) \<Longrightarrow> trim s = s"
proof (cases "s = []")
  case True
  then show ?thesis by (simp add: trim_def)
next
  case False
  assume "s = [] \<or> (\<not> is_space (hd s) \<and> \<not> is_space (last s))"
  then have h: "\<not> is_space (hd s)" and l: "\<not> is_space (last s)" using False by auto
  have "dropWhile is_space s = s" using h by (simp add: dropWhile_eq_self_iff)
  moreover have "dropWhile is_space (rev s) = rev s"
    using l False by (simp add: dropWhile_eq_self_iff hd_rev)
  ultimately show ?thesis by (simp add: trim_def)
qed

lemma trim_idem: "trim (trim s) = trim s"
  by (rule trim_fixed) (use trim_hd trim_last in blast)

lemma set_collapse_spaces: "set (collapse_spaces s) \<subseteq> insert 0x20 (set s)"
proof (induction s rule: collapse_spaces.induct)
  case 1
  then show ?case by simp
next
  case (2 c cs)
  show ?case
  proof (cases "is_space c")
    case True
    have "set (dropWhile is_space cs) \<subseteq> set cs" by (rule set_dropWhileD [THEN subsetI]) 
    then show ?thesis using True 2 by auto
  next
    case False
    then show ?thesis using 2 by auto
  qed
qed

lemma clean_not_forbidden: "c \<in> set (clean s) \<Longrightarrow> \<not> forbidden c"
proof -
  assume "c \<in> set (clean s)"
  then have "c \<in> set (collapse_spaces (filter (\<lambda>c. \<not> forbidden c) s))"
    using set_trim unfolding clean_def by blast
  then have "c = 0x20 \<or> c \<in> set (filter (\<lambda>c. \<not> forbidden c) s)"
    using set_collapse_spaces by blast
  then show ?thesis using space_not_forbidden by auto
qed

lemma clean_idem: "clean (clean s) = clean s"
proof -
  have f: "filter (\<lambda>c. \<not> forbidden c) (clean s) = clean s"
    using clean_not_forbidden [of _ s] by (simp add: filter_id_conv)
  have n: "ws_normal (clean s)"
    unfolding clean_def by (intro ws_normal_trim ws_normal_collapse)
  have "clean (clean s) = trim (collapse_spaces (clean s))"
    by (simp add: clean_def [of "clean s"] f)
  also have "\<dots> = trim (clean s)" using n by (simp add: collapse_spaces_normal)
  also have "\<dots> = clean s" unfolding clean_def by (rule trim_idem)
  finally show ?thesis .
qed

lemma sanitizeFilename_untitled: "sanitizeFilename (lit ''untitled'') = lit ''untitled''"
  by code_simp

lemma sanitizeFilename_clean:
  "s \<noteq> [] \<Longrightarrow> sanitizeFilename s = clean s"
  by (simp add: sanitizeFilename_def clean_def)

lemma untitled_chars: "c \<in> set (lit ''untitled'') \<Longrightarrow> \<not> forbidden c \<and> \<not> is_space c"
  by (auto simp: lit_def forbidden_def is_space_def)

lemma sanitizeFilename_not_forbidden: "c \<in> set (sanitizeFilename s) \<Longrightarrow> \<not> forbidden c"
proof (cases "s = []")
  case True
  assume "c \<in> set (sanitizeFilename s)"
  then have "c \<in> set (lit ''untitled'')" using True by (simp add: sanitizeFilename_def)
  then show ?thesis using untitled_chars by blast
next
  case False
  assume "c \<in> set (sanitizeFilename s)"
  then have "c \<in> set (clean s)" using sanitizeFilename_clean [OF False] by simp
  then show ?thesis by (rule clean_not_forbidden)
qed

lemma ws_normal_no_spaces: "\<forall>c\<in>set s. \<not> is_space c \<Longrightarrow> ws_normal s"
  by (induction s rule: ws_normal.induct) auto

lemma sanitizeFilename_normal: "ws_normal (sanitizeFilename s)"
proof (cases "s = []")
  case True
  then show ?thesis using untitled_chars by (simp add: sanitizeFilename_def ws_normal_no_spaces)
next
  case False
  then show ?thesis
    by (simp add: sanitizeFilename_clean clean_def ws_normal_trim ws_normal_collapse)
qed

lemma sanitizeFilename_trimmed: "trim (sanitizeFilename s) = sanitizeFilename s"
proof (cases "s = []")
  case True
  have "trim (lit ''untitled'') = lit ''untitled''" by code_simp
  then show ?thesis using True by (simp add: sanitizeFilename_def)
next
  case False
  then show ?thesis by (simp add: sanitizeFilename_clean clean_def trim_idem)
qed

text \<open>
  Claim C7, as the code has it. Sanitizing twice gives the same as sanitizing once, unless
  the first result is empty: an empty string is sanitized to \<open>untitled\<close>.
\<close>

theorem sanitizeFilename_twice:
  "sanitizeFilename (sanitizeFilename s) =
     (if sanitizeFilename s = [] then lit ''untitled'' else sanitizeFilename s)"
proof (cases "s = []")
  case True
  then show ?thesis using sanitizeFilename_untitled by (simp add: sanitizeFilename_def lit_def)
next
  case False
  then have s: "sanitizeFilename s = clean s" by (simp add: sanitizeFilename_def clean_def)
  show ?thesis
  proof (cases "clean s = []")
    case True
    have "sanitizeFilename (sanitizeFilename s) = sanitizeFilename []"
      by (simp only: s True)
    also have "\<dots> = lit ''untitled''"
      by (simp add: sanitizeFilename_def)
    finally show ?thesis by (simp add: s True)
  next
    case F2: False
    then have "sanitizeFilename (clean s) = clean (clean s)"
      by (simp add: sanitizeFilename_def clean_def)
    then show ?thesis using F2 by (simp add: s clean_idem)
  qed
qed

theorem sanitizeFilename_not_idempotent:
  "sanitizeFilename (sanitizeFilename (lit ''?'')) \<noteq> sanitizeFilename (lit ''?'')"
  by code_simp

theorem sanitizeFilename_twice_witness:
  "sanitizeFilename (lit '' a / b  c '') = lit ''a b c''
   \<and> sanitizeFilename (lit ''a b c'') = lit ''a b c''
   \<and> sanitizeFilename (lit ''?'') = []
   \<and> sanitizeFilename [] = lit ''untitled''"
proof -
  have a: "sanitizeFilename (lit '' a / b  c '') = lit ''a b c''" by code_simp
  have b: "sanitizeFilename (lit ''?'') = []" by code_simp
  show ?thesis
    using a b sanitizeFilename_twice [of "lit '' a / b  c ''"] sanitizeFilename_twice [of "lit ''?''"]
    by (simp add: lit_def)
qed

subsection \<open>Generated names\<close>

text \<open>
  Claim C2. With the tables, the form and the empty ledger of the scenario, confirming
  \<open>IMG_001.jpg\<close> assigns the full name \<open>1_Bracket_12.5_kg_M01_P02_I03_P_0.jpg\<close>, both
  with an empty number field and with the number field as the import of the image sets
  it.
\<close>

theorem scenario_full_name:
  "assigned_full_name (applyAndNext (scenario_state, scenario_form)) (lit ''IMG_001.jpg'')
     = Some (lit ''1_Bracket_12.5_kg_M01_P02_I03_P_0.jpg'')
   \<and> assigned_full_name
        (applyAndNext
           (handleImageUpload lc (scenario_state\<lparr>imageFiles := [], isReady := False\<rparr>, scenario_form)
              [example_file ''IMG_001.jpg'']))
        (lit ''IMG_001.jpg'')
     = Some (lit ''1_Bracket_12.5_kg_M01_P02_I03_P_0.jpg'')"
  by code_simp

theorem scenario_full_name_witness:
  "assigned_full_name
     (applyAndNext
        (handleImageUpload codeUnitCompare
           (scenario_state\<lparr>imageFiles := [], isReady := False\<rparr>, scenario_form)
           [example_file ''IMG_001.jpg'']))
     (lit ''IMG_001.jpg'')
   = Some (lit ''1_Bracket_12.5_kg_M01_P02_I03_P_0.jpg'')"
  using scenario_full_name [of codeUnitCompare] by simp

text \<open>
  Three images confirmed in a row with the form of the scenario get the numbers 1, 1
  and 2.
\<close>

lemma three_confirmations:
  "map (\<lambda>n. assigned_full_name
         (confirm (confirm (applyAndNext
            (handleImageUpload codeUnitCompare
               (scenario_state\<lparr>imageFiles := [], isReady := False\<rparr>, scenario_form)
               three_images))))
         (lit n)) [''a.jpg'', ''b.jpg'', ''c.jpg'']
   = map (\<lambda>n. Some (lit n))
       [''1_Bracket_12.5_kg_M01_P02_I03_P_0.jpg'',
        ''1_Bracket_12.5_kg_M01_P02_I03_P_0.jpg'',
        ''2_Bracket_12.5_kg_M01_P02_I03_P_0.jpg'']"
  by code_simp

lemma lit_underscore: "lit ''_'' = [0x5F]"
  by (simp add: lit_def)

lemma generateFilename_empty_iff:
  "generateFilename s d = [] \<longleftrightarrow>
     trim (partNameInput d) = [] \<or> trim (weightInput d) = [] \<or> implementerSelect d = []
     \<or> materialSelect d = [] \<or> processingSelect d = []"
  by (simp add: generateFilename_def Let_def lit_underscore)

lemma underscore_not_in_dots: "0x5F \<notin> set (lit ''...'')"
  by (simp add: lit_def)

lemma generateNewFilename_cases:
  "generateNewFilename st dm =
     (if \<not> isReady_s st then []
      else if trim (inputPartName dm) = [] \<or> inputMaterial dm = [] \<or> inputProcessing dm = []
      then lit ''...''
      else numberToString (js_add (Finite (int (currentIndex_s st))) (Finite 1)) @ lit ''_'' @ sanitizeFilename (trim (inputPartName dm))
           @ lit ''_'' @ sanitizeFilename (trim (inputWeight dm)) @ lit ''_'' @ inputUnit dm
           @ lit ''_'' @ or_placeholder (map_of (materialNameToId_s st) (inputMaterial dm))
           @ lit ''_'' @ or_placeholder (map_of (processing st) (inputProcessing dm))
           @ lit ''_'' @ inputPhotoType dm @ lit ''_'' @ inputNotes dm)"
  by (simp add: generateNewFilename_def getInputValues_def Let_def)

lemma composed_name_not_marker:
  "n @ lit ''_'' @ r \<noteq> [] \<and> n @ lit ''_'' @ r \<noteq> lit ''...''"
proof -
  have "0x5F \<in> set (n @ lit ''_'' @ r)" by (simp add: lit_underscore)
  then show ?thesis using underscore_not_in_dots by (metis empty_iff list.set(1))
qed

lemma dots_nonempty: "lit ''...'' \<noteq> []"
  by (simp add: lit_def)

text \<open>
  Claim C3, without the characters of the weight. \<open>generateFilename\<close> of app.js returns
  the empty string exactly when the part name or the weight is empty after trimming, or
  implementer, material or processing is not selected. \<open>generateNewFilename\<close> of
  script.js returns the empty string when tables or images are not loaded, and the
  marker \<open>...\<close> when they are loaded and the trimmed part name, the material or the
  processing is empty; it returns a name, neither the empty string nor the marker, when
  they are loaded and part name, weight, material and processing are all there. Both are
  total functions.
\<close>

theorem generateFilename_empty_result:
  "(generateFilename s d = [] \<longleftrightarrow>
      trim (partNameInput d) = [] \<or> trim (weightInput d) = [] \<or> implementerSelect d = []
      \<or> materialSelect d = [] \<or> processingSelect d = [])
   \<and> (\<not> isReady_s st \<longrightarrow> generateNewFilename st dm = [])
   \<and> (isReady_s st \<and> (trim (inputPartName dm) = [] \<or> inputMaterial dm = [] \<or> inputProcessing dm = [])
        \<longrightarrow> generateNewFilename st dm = lit ''...'')
   \<and> (isReady_s st \<and> trim (inputPartName dm) \<noteq> [] \<and> trim (inputWeight dm) \<noteq> []
        \<and> inputMaterial dm \<noteq> [] \<and> inputProcessing dm \<noteq> []
        \<longrightarrow> generateNewFilename st dm \<noteq> [] \<and> generateNewFilename st dm \<noteq> lit ''...'')"
proof (intro conjI impI)
  show "generateFilename s d = [] \<longleftrightarrow>
      trim (partNameInput d) = [] \<or> trim (weightInput d) = [] \<or> implementerSelect d = []
      \<or> materialSelect d = [] \<or> processingSelect d = []"
    by (rule generateFilename_empty_iff)
next
  assume "\<not> isReady_s st"
  then show "generateNewFilename st dm = []"
    by (simp add: generateNewFilename_cases)
next
  assume "isReady_s st \<and> (trim (inputPartName dm) = [] \<or> inputMaterial dm = [] \<or> inputProcessing dm = [])"
  then show "generateNewFilename st dm = lit ''...''"
    by (simp add: generateNewFilename_cases)
next
  assume a: "isReady_s st \<and> trim (inputPartName dm) \<noteq> [] \<and> trim (inputWeight dm) \<noteq> []
        \<and> inputMaterial dm \<noteq> [] \<and> inputProcessing dm \<noteq> []"
  then show "generateNewFilename st dm \<noteq> []"
    using composed_name_not_marker by (simp add: generateNewFilename_cases)
  from a show "generateNewFilename st dm \<noteq> lit ''...''"
    using composed_name_not_marker by (simp add: generateNewFilename_cases)
qed

text \<open>
  The claim as the specification words it fails: the weight \<open>12,5\<close> is outside the
  allowed characters, and both generators return a name.
\<close>

theorem generateFilename_weight_unchecked:
  "generateFilename scenario_state (scenario_form\<lparr>weightInput := lit ''12,5''\<rparr>)
     = lit ''1_Bracket_12,5_kg_M01_P02_I03_P_0''
   \<and> \<not> spec_required_fields_valid (scenario_form\<lparr>weightInput := lit ''12,5''\<rparr>)
   \<and> \<not> (generateFilename scenario_state (scenario_form\<lparr>weightInput := lit ''12,5''\<rparr>) = []
          \<longleftrightarrow> \<not> spec_required_fields_valid (scenario_form\<lparr>weightInput := lit ''12,5''\<rparr>))
   \<and> generateNewFilename scenario_state_s (scenario_dom\<lparr>inputWeight := lit ''12,5''\<rparr>)
     = lit ''1_Bracket_12,5_kg_M01_P02_P_0''"
  by code_simp

theorem generateFilename_empty_result_witness:
  "generateFilename scenario_state scenario_form = lit ''1_Bracket_12.5_kg_M01_P02_I03_P_0''
   \<and> trim (weightInput (scenario_form\<lparr>weightInput := lit ''  ''\<rparr>)) = []
   \<and> generateFilename scenario_state (scenario_form\<lparr>weightInput := lit ''  ''\<rparr>) = []
   \<and> \<not> isReady_s (scenario_state_s\<lparr>images := []\<rparr>)
   \<and> generateNewFilename (scenario_state_s\<lparr>images := []\<rparr>) scenario_dom = []
   \<and> isReady_s scenario_state_s
   \<and> generateNewFilename scenario_state_s (scenario_dom\<lparr>inputMaterial := []\<rparr>) = lit ''...''
   \<and> generateNewFilename scenario_state_s scenario_dom \<noteq> []
   \<and> generateNewFilename scenario_state_s scenario_dom \<noteq> lit ''...''"
proof -
  have a: "generateFilename scenario_state scenario_form = lit ''1_Bracket_12.5_kg_M01_P02_I03_P_0''"
    by code_simp
  have b: "trim (weightInput (scenario_form\<lparr>weightInput := lit ''  ''\<rparr>)) = []"
    by code_simp
  have c: "isReady_s scenario_state_s" "\<not> isReady_s (scenario_state_s\<lparr>images := []\<rparr>)"
    by code_simp+
  have e: "inputMaterial (scenario_dom\<lparr>inputMaterial := []\<rparr>) = []"
    by simp
  have f: "trim (inputPartName scenario_dom) \<noteq> []" "trim (inputWeight scenario_dom) \<noteq> []"
      "inputMaterial scenario_dom \<noteq> []" "inputProcessing scenario_dom \<noteq> []"
    by code_simp+
  show ?thesis
    using a b c e f
      generateFilename_empty_result [of scenario_state "scenario_form\<lparr>weightInput := lit ''  ''\<rparr>"
        "scenario_state_s\<lparr>images := []\<rparr>" scenario_dom]
      generateFilename_empty_result [of scenario_state scenario_form
        scenario_state_s "scenario_dom\<lparr>inputMaterial := []\<rparr>"]
      generateFilename_empty_result [of scenario_state scenario_form scenario_state_s scenario_dom]
    by blast
qed

text \<open>
  The one case that the statement above leaves open is script.js with an empty weight
  and the other fields there: \<open>generateNewFilename\<close> has no test of the weight, and
  \<open>sanitizeFilename\<close> puts \<open>untitled\<close> in its place.
\<close>

lemma generateNewFilename_empty_weight:
  "generateNewFilename scenario_state_s (scenario_dom\<lparr>inputWeight := lit ''  ''\<rparr>)
     = lit ''1_Bracket_untitled_kg_M01_P02_P_0''"
  by code_simp


lemma generateFilename_validateForm: "generateFilename s d \<noteq> [] \<longleftrightarrow> validateForm d"
  by (auto simp add: generateFilename_empty_iff validateForm_def)

lemma generateNewFilename_valid:
  assumes "isReady_s st" and "validateInputs dm"
  shows "generateNewFilename st dm =
           numberToString (js_add (Finite (int (currentIndex_s st))) (Finite 1)) @ lit ''_'' @ sanitizeFilename (trim (inputPartName dm))
           @ lit ''_'' @ sanitizeFilename (trim (inputWeight dm)) @ lit ''_'' @ inputUnit dm
           @ lit ''_'' @ or_placeholder (map_of (materialNameToId_s st) (inputMaterial dm))
           @ lit ''_'' @ or_placeholder (map_of (processing st) (inputProcessing dm))
           @ lit ''_'' @ inputPhotoType dm @ lit ''_'' @ inputNotes dm"
  using assms by (simp add: generateNewFilename_cases validateInputs_def getInputValues_def Let_def)

lemma or_placeholder_miss: "or_placeholder None = lit ''???''"
  by (simp add: or_placeholder_def)

lemma generateNewFilename_lookup_miss:
  "generateNewFilename scenario_state_s (scenario_dom\<lparr>inputMaterial := lit ''Steel''\<rparr>)
     = lit ''1_Bracket_12.5_kg_???_P02_P_0''
   \<and> generateNewFilename scenario_state_s (scenario_dom\<lparr>inputProcessing := lit ''Polish''\<rparr>)
     = lit ''1_Bracket_12.5_kg_M01_???_P_0''"
  by code_simp

text \<open>
  Claim C5 says that a display name without an entry in its table gives the placeholder
  \<open>???\<close>. script.js does so (\<open>generateNewFilename_valid\<close>, \<open>or_placeholder_miss\<close>,
  \<open>generateNewFilename_lookup_miss\<close>). app.js does not: with a material, a processing or
  an implementer that the tables of the scenario do not hold, the generated name carries
  the text \<open>undefined\<close> in that place.
\<close>

theorem generateFilename_lookup_miss:
  "generateFilename scenario_state (scenario_form\<lparr>materialSelect := lit ''Steel''\<rparr>)
     = lit ''1_Bracket_12.5_kg_undefined_P02_I03_P_0''
   \<and> generateFilename scenario_state (scenario_form\<lparr>processingSelect := lit ''Polish''\<rparr>)
     = lit ''1_Bracket_12.5_kg_M01_undefined_I03_P_0''
   \<and> generateFilename scenario_state (scenario_form\<lparr>implementerSelect := lit ''Bob''\<rparr>)
     = lit ''1_Bracket_12.5_kg_M01_P02_undefined_P_0''"
  by code_simp


lemma generateNewFilename_sanitized_example:
  "generateNewFilename scenario_state_s (scenario_dom\<lparr>inputPartName := lit ''a/b  c''\<rparr>)
     = lit ''1_ab c_12.5_kg_M01_P02_P_0''"
  by code_simp

text \<open>
  Claim C6 says that part name and weight are sanitized in the generated name. script.js
  does so (\<open>generateNewFilename_valid\<close>, \<open>sanitizeFilename_not_forbidden\<close>,
  \<open>sanitizeFilename_normal\<close>, \<open>sanitizeFilename_trimmed\<close>). app.js only trims them: the
  part name \<open>a/b\<close> reaches the generated name with its slash, and a weight with two
  spaces in a row keeps both. \<open>validateForm\<close> accepts both forms.
\<close>

theorem generateFilename_unsanitized:
  "generateFilename scenario_state (scenario_form\<lparr>partNameInput := lit ''a/b''\<rparr>)
     = lit ''1_a/b_12.5_kg_M01_P02_I03_P_0''
   \<and> validateForm (scenario_form\<lparr>partNameInput := lit ''a/b''\<rparr>)
   \<and> forbidden (of_char CHR ''/'')
   \<and> generateFilename scenario_state (scenario_form\<lparr>weightInput := lit ''1  2''\<rparr>)
     = lit ''1_Bracket_1  2_kg_M01_P02_I03_P_0''
   \<and> validateForm (scenario_form\<lparr>weightInput := lit ''1  2''\<rparr>)"
  by code_simp


subsection \<open>The extension\<close>

lemma split_nonempty: "split sep s \<noteq> []"
  by (induction s) (auto split: list.splits)

lemma split_no_sep: "sep \<notin> set s \<Longrightarrow> split sep s = [s]"
  by (induction s) auto

lemma split_with_sep: "sep \<in> set s \<Longrightarrow> \<exists>seg segs. split sep s = seg # segs \<and> segs \<noteq> []"
proof (induction s)
  case Nil
  then show ?case by simp
next
  case (Cons c s)
  show ?case
  proof (cases "c = sep")
    case True
    then show ?thesis by (simp add: split_nonempty)
  next
    case False
    then have "sep \<in> set s" using Cons.prems by simp
    then obtain seg segs where "split sep s = seg # segs" and "segs \<noteq> []"
      using Cons.IH by blast
    then show ?thesis using False by simp
  qed
qed

lemma last_split_append: "sep \<notin> set e \<Longrightarrow> last (split sep (p @ sep # e)) = e"
proof (induction p)
  case Nil
  then show ?case by (simp add: split_no_sep)
next
  case (Cons c p)
  obtain seg segs where sp: "split sep (p @ sep # e) = seg # segs" and ne: "segs \<noteq> []"
    using split_with_sep [of sep "p @ sep # e"] by auto
  have "last (split sep (p @ sep # e)) = e" using Cons by simp
  then show ?case using sp ne by simp
qed

lemma split_pop_after_last_dot: "0x2E \<notin> set e \<Longrightarrow> split_pop (p @ lit ''.'' @ e) = e"
  using last_split_append [of "0x2E" e p] by (simp add: split_pop_def lit_def)

lemma split_pop_no_dot: "0x2E \<notin> set s \<Longrightarrow> split_pop s = s"
  by (simp add: split_pop_def split_no_sep)

lemma applyAndNext_full_name:
  assumes "validateForm d" and "currentIndex s < length (imageFiles s)"
  shows "assigned_full_name (applyAndNext (s, d)) (name (imageFiles s ! currentIndex s))
    = Some (generateFilename s d @ lit ''.'' @ split_pop (name (imageFiles s ! currentIndex s)))"
  using assms
  by (simp add: applyAndNext_def assigned_full_name_def Let_def map_of_assign fullFilename_def)

lemma applyAndNext_s_full_name:
  assumes "validateInputs dm" and "currentIndex_s st < length (images st)"
  shows "assigned_full_name_s (applyAndNext_s (st, dm)) (name (images st ! currentIndex_s st))
    = Some (generateNewFilename st dm @ lit ''.'' @ split_pop (name (images st ! currentIndex_s st)))"
  using assms
  by (simp add: applyAndNext_s_def assigned_full_name_s_def Let_def map_of_assign)

text \<open>
  Claim C8 says that a name without a dot gets no extension. For a name with a dot the
  extension is the text after the last dot (\<open>split_pop_after_last_dot\<close>). For a name
  without a dot \<open>split('.').pop()\<close> is the whole name (\<open>split_pop_no_dot\<close>), and the
  confirmation appends a dot and the whole original name, in app.js and in script.js.
\<close>

theorem applyAndNext_no_dot:
  "assigned_full_name
     (applyAndNext (scenario_state\<lparr>imageFiles := [example_file ''IMG_001'']\<rparr>, scenario_form))
     (lit ''IMG_001'')
   = Some (lit ''1_Bracket_12.5_kg_M01_P02_I03_P_0.IMG_001'')
   \<and> assigned_full_name_s
     (applyAndNext_s (scenario_state_s\<lparr>images := [example_file ''IMG_001'']\<rparr>, scenario_dom))
     (lit ''IMG_001'')
   = Some (lit ''1_Bracket_12.5_kg_M01_P02_P_0.IMG_001'')"
  by code_simp


subsection \<open>The order of the images\<close>

lemma chunks_img1: "chunks (lit ''img1.jpg'') = [(Infinity, lit ''img''), (Digits (lit ''1''), []), (Infinity, lit ''.jpg'')]"
  by code_simp
lemma chunks_img2: "chunks (lit ''img2.jpg'') = [(Infinity, lit ''img''), (Digits (lit ''2''), []), (Infinity, lit ''.jpg'')]"
  by code_simp
lemma chunks_img10: "chunks (lit ''img10.jpg'') = [(Infinity, lit ''img''), (Digits (lit ''10''), []), (Infinity, lit ''.jpg'')]"
  by code_simp
lemma toNumber_examples:
  "toNumber (lit ''1'') = Finite 1" "toNumber (lit ''2'') = Finite 2" "toNumber (lit ''10'') = Finite 10"
  by code_simp+

lemma js_minus_examples:
  "js_minus Infinity Infinity = NaN"
  "js_minus (Digits (lit ''2'')) (Digits (lit ''1'')) = Finite 1"
  "js_minus (Digits (lit ''10'')) (Digits (lit ''1'')) = Finite 9"
  "js_minus (Digits (lit ''10'')) (Digits (lit ''2'')) = Finite 8"
  by code_simp+

lemma naturalSort_examples:
  assumes "\<forall>x. lc x x = 0"
  shows "naturalSort lc (lit ''img2.jpg'') (lit ''img1.jpg'') = Finite 1"
    and "naturalSort lc (lit ''img10.jpg'') (lit ''img1.jpg'') = Finite 9"
    and "naturalSort lc (lit ''img10.jpg'') (lit ''img2.jpg'') = Finite 8"
  using assms
  by (simp_all add: naturalSort_def chunks_img1 chunks_img2 chunks_img10 js_minus_examples truthy_def)


lemma handleImageUpload_natural:
  assumes "\<forall>x. lc x x = 0"
  shows "map name (imageFiles (fst (handleImageUpload lc (s, d) (map example_file example_names))))
    = map lit [''img1.jpg'', ''img2.jpg'', ''img10.jpg'']"
  using assms naturalSort_examples [of lc]
  by (simp add: handleImageUpload_def example_names_def example_file_def array_sort_def
        checkReadyState_def Let_def)

lemma codeUnitCompare_refl: "codeUnitCompare x x = 0"
  by (induction x) simp_all

lemma handleImageUpload_natural_example:
  "map name (imageFiles (fst (handleImageUpload codeUnitCompare (scenario_state, scenario_form) (map example_file example_names))))
    = map lit [''img1.jpg'', ''img2.jpg'', ''img10.jpg'']"
  by (rule handleImageUpload_natural) (simp add: codeUnitCompare_refl)

lemma chunks_nondigit_run:
  assumes "p \<noteq> []" and "\<forall>c\<in>set p. \<not> is_digit c" and "t = [] \<or> is_digit (hd t)"
  shows "chunks (p @ t) = (Infinity, p) # chunks t"
proof -
  obtain c cs where p: "p = c # cs" using assms(1) by (cases p) auto
  have tk: "takeWhile (\<lambda>d. \<not> is_digit d) t = []"
    using assms(3) by (simp add: takeWhile_eq_Nil_iff)
  have dr: "dropWhile (\<lambda>d. \<not> is_digit d) t = t"
    using assms(3) by (simp add: dropWhile_eq_self_iff)
  have "takeWhile (\<lambda>d. \<not> is_digit d) (cs @ t) = cs"
    using assms(2) p tk by (simp add: takeWhile_append2)
  moreover have "dropWhile (\<lambda>d. \<not> is_digit d) (cs @ t) = t"
    using assms(2) p dr by (simp add: dropWhile_append2)
  moreover have "\<not> is_digit c" using assms(2) p by simp
  ultimately show ?thesis by (simp add: p)
qed

lemma chunks_digit_run:
  assumes "a \<noteq> []" and "\<forall>c\<in>set a. is_digit c" and "r = [] \<or> \<not> is_digit (hd r)"
  shows "chunks (a @ r) = (Digits a, []) # chunks r"
proof -
  obtain c cs where a: "a = c # cs" using assms(1) by (cases a) auto
  have tk: "takeWhile is_digit r = []"
    using assms(3) by (simp add: takeWhile_eq_Nil_iff)
  have dr: "dropWhile is_digit r = r"
    using assms(3) by (simp add: dropWhile_eq_self_iff)
  have "takeWhile is_digit (cs @ r) = cs"
    using assms(2) a tk by (simp add: takeWhile_append2)
  moreover have "dropWhile is_digit (cs @ r) = r"
    using assms(2) a dr by (simp add: dropWhile_append2)
  moreover have "is_digit c" using assms(2) a by simp
  ultimately show ?thesis by (simp add: a)
qed

lemma number_value_exact: "\<bar>n\<bar> \<le> 2 ^ 53 \<Longrightarrow> number_value n = Finite n"
proof -
  assume a: "\<bar>n\<bar> \<le> 2 ^ 53"
  have "number_value \<bar>n\<bar> = Finite \<bar>n\<bar>"
    using a by (intro number_value_safe) simp_all
  then have "nearest_double \<bar>n\<bar> = \<bar>n\<bar> \<and> \<not> 2 ^ 1024 \<le> nearest_double \<bar>n\<bar>"
    by (auto simp: number_value_def Let_def split: if_splits)
  then show ?thesis by (auto simp: number_value_def Let_def)
qed

lemma toNumber_safe:
  "list_all is_digit ds \<Longrightarrow> decimal_value ds < 2 ^ 53 \<Longrightarrow> toNumber ds = Finite (decimal_value ds)"
  by (simp add: toNumber_def number_value_safe decimal_value_nonneg)

lemma js_minus_digits:
  assumes "list_all is_digit a" and "decimal_value a < 2 ^ 53"
    and "list_all is_digit b" and "decimal_value b < 2 ^ 53"
  shows "js_minus (Digits a) (Digits b) = Finite (decimal_value a - decimal_value b)"
proof -
  have "0 \<le> decimal_value a" "0 \<le> decimal_value b"
    using assms(1,3) by (simp_all add: decimal_value_nonneg)
  then have "\<bar>decimal_value a - decimal_value b\<bar> \<le> 2 ^ 53"
    using assms(2,4) by linarith
  then have "number_value (decimal_value a - decimal_value b) = Finite (decimal_value a - decimal_value b)"
    by (rule number_value_exact)
  then show ?thesis
    using assms by (simp add: js_minus_def js_subtract_def toNumber_safe)
qed

lemma js_minus_Infinity: "js_minus Infinity Infinity = NaN"
  by (simp add: js_minus_def js_subtract_def)

lemma naturalSort_numeric:
  assumes "lc p p = 0"
    and "p \<noteq> []" and "\<forall>c\<in>set p. \<not> is_digit c"
    and "a \<noteq> []" and "\<forall>c\<in>set a. is_digit c"
    and "b \<noteq> []" and "\<forall>c\<in>set b. is_digit c"
    and "r = [] \<or> \<not> is_digit (hd r)" and "r' = [] \<or> \<not> is_digit (hd r')"
    and "decimal_value a < 2 ^ 53" and "decimal_value b < 2 ^ 53"
    and "decimal_value a \<noteq> decimal_value b"
  shows "naturalSort lc (p @ a @ r) (p @ b @ r') = Finite (decimal_value a - decimal_value b)"
proof -
  have ha: "a @ r = [] \<or> is_digit (hd (a @ r))" using assms(4,5) by (cases a) auto
  have hb: "b @ r' = [] \<or> is_digit (hd (b @ r'))" using assms(6,7) by (cases b) auto
  have ca: "chunks (p @ a @ r) = (Infinity, p) # (Digits a, []) # chunks r"
    using chunks_nondigit_run [OF assms(2,3) ha] chunks_digit_run [OF assms(4,5,8)] by simp
  have cb: "chunks (p @ b @ r') = (Infinity, p) # (Digits b, []) # chunks r'"
    using chunks_nondigit_run [OF assms(2,3) hb] chunks_digit_run [OF assms(6,7,9)] by simp
  have d: "js_minus (Digits a) (Digits b) = Finite (decimal_value a - decimal_value b)"
    using assms(5,7,10,11) by (intro js_minus_digits) (simp_all add: list_all_iff)
  show ?thesis
    using assms(1,12) by (simp add: naturalSort_def ca cb d js_minus_Infinity truthy_def)
qed


text \<open>
  Claim C9 says that the import sorts the images in natural order. app.js does so
  (\<open>handleImageUpload_natural\<close>, \<open>naturalSort_numeric\<close>). script.js sorts by
  \<open>localeCompare\<close> of the whole names:
  under a collation that puts \<open>img1.jpg\<close> before \<open>img10.jpg\<close> before \<open>img2.jpg\<close>, as
  collations without the numeric option do, that is the order of the sequence.
\<close>

theorem handleImagesLoad_lexical:
  assumes "lc (lit ''img1.jpg'') (lit ''img10.jpg'') < 0"
    and "lc (lit ''img10.jpg'') (lit ''img2.jpg'') < 0"
    and "lc (lit ''img1.jpg'') (lit ''img2.jpg'') < 0"
    and "0 < lc (lit ''img10.jpg'') (lit ''img1.jpg'')"
    and "0 < lc (lit ''img2.jpg'') (lit ''img10.jpg'')"
    and "0 < lc (lit ''img2.jpg'') (lit ''img1.jpg'')"
  shows "map name (images (handleImagesLoad lc st (map example_file example_names)))
    = map lit [''img1.jpg'', ''img10.jpg'', ''img2.jpg'']"
  using assms
  by (simp add: handleImagesLoad_def example_names_def example_file_def array_sort_def)

lemma codeUnitCompare_examples:
  "codeUnitCompare (lit ''img1.jpg'') (lit ''img10.jpg'') < 0"
  "codeUnitCompare (lit ''img10.jpg'') (lit ''img2.jpg'') < 0"
  "codeUnitCompare (lit ''img1.jpg'') (lit ''img2.jpg'') < 0"
  "0 < codeUnitCompare (lit ''img10.jpg'') (lit ''img1.jpg'')"
  "0 < codeUnitCompare (lit ''img2.jpg'') (lit ''img10.jpg'')"
  "0 < codeUnitCompare (lit ''img2.jpg'') (lit ''img1.jpg'')"
  by code_simp+

theorem handleImagesLoad_lexical_witness:
  "codeUnitCompare (lit ''img1.jpg'') (lit ''img10.jpg'') < 0
   \<and> codeUnitCompare (lit ''img10.jpg'') (lit ''img2.jpg'') < 0
   \<and> codeUnitCompare (lit ''img1.jpg'') (lit ''img2.jpg'') < 0
   \<and> 0 < codeUnitCompare (lit ''img10.jpg'') (lit ''img1.jpg'')
   \<and> 0 < codeUnitCompare (lit ''img2.jpg'') (lit ''img10.jpg'')
   \<and> 0 < codeUnitCompare (lit ''img2.jpg'') (lit ''img1.jpg'')
   \<and> map name (images (handleImagesLoad codeUnitCompare scenario_state_s (map example_file example_names)))
       = map lit [''img1.jpg'', ''img10.jpg'', ''img2.jpg'']"
  using codeUnitCompare_examples
    handleImagesLoad_lexical [of codeUnitCompare scenario_state_s, OF codeUnitCompare_examples]
  by simp

subsection \<open>What a confirmation leaves unchanged\<close>

text \<open>
  Claim C10. When the form is valid, \<open>applyAndNext\<close> fails only when there is no current
  image, and then nothing is written. Otherwise every ledger entry under another key than
  the name of the current image is as before, and so are the images and the lookup
  tables; the cursor moves on by one unless it is at the last image, where it stays. This
  holds for app.js and for script.js. In app.js the form keeps every value but that of
  the number field, which \<open>autoSetNumber\<close> sets again.
\<close>

theorem applyAndNext_frame:
  "(validateForm d \<longrightarrow>
     (case applyAndNext (s, d) of
        Inl e \<Rightarrow> length (imageFiles s) \<le> currentIndex s
      | Inr sd' \<Rightarrow>
          currentIndex s < length (imageFiles s)
          \<and> (\<forall>k. k \<noteq> name (imageFiles s ! currentIndex s)
                 \<longrightarrow> map_of (processedFiles (fst sd')) k = map_of (processedFiles s) k)
          \<and> filter (\<lambda>p. fst p \<noteq> name (imageFiles s ! currentIndex s)) (processedFiles (fst sd'))
              = filter (\<lambda>p. fst p \<noteq> name (imageFiles s ! currentIndex s)) (processedFiles s)
          \<and> imageFiles (fst sd') = imageFiles s
          \<and> materials (fst sd') = materials s
          \<and> processingMethods (fst sd') = processingMethods s
          \<and> implementers (fst sd') = implementers s
          \<and> materialCategories (fst sd') = materialCategories s
          \<and> materialNameToId (fst sd') = materialNameToId s
          \<and> isReady (fst sd') = isReady s
          \<and> (snd sd')\<lparr>numberInput := numberInput d\<rparr> = d
          \<and> currentIndex (fst sd')
              = (if currentIndex s + 1 < length (imageFiles s) then currentIndex s + 1
                 else currentIndex s)))
   \<and> (validateInputs dm \<longrightarrow>
     (case applyAndNext_s (st, dm) of
        Inl e \<Rightarrow> length (images st) \<le> currentIndex_s st
      | Inr st' \<Rightarrow>
          currentIndex_s st < length (images st)
          \<and> (\<forall>k. k \<noteq> name (images st ! currentIndex_s st)
                 \<longrightarrow> map_of (renamedFiles st') k = map_of (renamedFiles st) k)
          \<and> filter (\<lambda>p. fst p \<noteq> name (images st ! currentIndex_s st)) (renamedFiles st')
              = filter (\<lambda>p. fst p \<noteq> name (images st ! currentIndex_s st)) (renamedFiles st)
          \<and> images st' = images st
          \<and> materials_s st' = materials_s st
          \<and> materialCategories_s st' = materialCategories_s st
          \<and> materialNameToId_s st' = materialNameToId_s st
          \<and> processing st' = processing st
          \<and> currentIndex_s st'
              = (if currentIndex_s st + 1 < length (images st) then currentIndex_s st + 1
                 else currentIndex_s st)))"
proof (intro conjI impI)
  assume v: "validateForm d"
  show "case applyAndNext (s, d) of
        Inl e \<Rightarrow> length (imageFiles s) \<le> currentIndex s
      | Inr sd' \<Rightarrow>
          currentIndex s < length (imageFiles s)
          \<and> (\<forall>k. k \<noteq> name (imageFiles s ! currentIndex s)
                 \<longrightarrow> map_of (processedFiles (fst sd')) k = map_of (processedFiles s) k)
          \<and> filter (\<lambda>p. fst p \<noteq> name (imageFiles s ! currentIndex s)) (processedFiles (fst sd'))
              = filter (\<lambda>p. fst p \<noteq> name (imageFiles s ! currentIndex s)) (processedFiles s)
          \<and> imageFiles (fst sd') = imageFiles s
          \<and> materials (fst sd') = materials s
          \<and> processingMethods (fst sd') = processingMethods s
          \<and> implementers (fst sd') = implementers s
          \<and> materialCategories (fst sd') = materialCategories s
          \<and> materialNameToId (fst sd') = materialNameToId s
          \<and> isReady (fst sd') = isReady s
          \<and> (snd sd')\<lparr>numberInput := numberInput d\<rparr> = d
          \<and> currentIndex (fst sd')
              = (if currentIndex s + 1 < length (imageFiles s) then currentIndex s + 1
                 else currentIndex s)"
  proof (cases "length (imageFiles s) \<le> currentIndex s")
    case True
    then show ?thesis using v by (simp add: applyAndNext_def)
  next
    case False
    then show ?thesis using v
      by (simp add: applyAndNext_def Let_def filter_assign map_of_assign_other autoSetNumber_def)
  qed
next
  assume v: "validateInputs dm"
  show "case applyAndNext_s (st, dm) of
        Inl e \<Rightarrow> length (images st) \<le> currentIndex_s st
      | Inr st' \<Rightarrow>
          currentIndex_s st < length (images st)
          \<and> (\<forall>k. k \<noteq> name (images st ! currentIndex_s st)
                 \<longrightarrow> map_of (renamedFiles st') k = map_of (renamedFiles st) k)
          \<and> filter (\<lambda>p. fst p \<noteq> name (images st ! currentIndex_s st)) (renamedFiles st')
              = filter (\<lambda>p. fst p \<noteq> name (images st ! currentIndex_s st)) (renamedFiles st)
          \<and> images st' = images st
          \<and> materials_s st' = materials_s st
          \<and> materialCategories_s st' = materialCategories_s st
          \<and> materialNameToId_s st' = materialNameToId_s st
          \<and> processing st' = processing st
          \<and> currentIndex_s st'
              = (if currentIndex_s st + 1 < length (images st) then currentIndex_s st + 1
                 else currentIndex_s st)"
  proof (cases "length (images st) \<le> currentIndex_s st")
    case True
    then show ?thesis using v by (simp add: applyAndNext_s_def)
  next
    case False
    then show ?thesis using v
      by (simp add: applyAndNext_s_def Let_def filter_assign map_of_assign_other)
  qed
qed

theorem applyAndNext_frame_witness:
  "validateForm scenario_form
   \<and> \<not> isl (applyAndNext (scenario_state\<lparr>processedFiles := example_ledger\<rparr>, scenario_form))
   \<and> map_of (processedFiles (fst (projr
         (applyAndNext (scenario_state\<lparr>processedFiles := example_ledger\<rparr>, scenario_form)))))
        (lit ''a.jpg'')
       = map_of example_ledger (lit ''a.jpg'')
   \<and> imageFiles (fst (projr
         (applyAndNext (scenario_state\<lparr>processedFiles := example_ledger\<rparr>, scenario_form))))
       = [example_file ''IMG_001.jpg'']
   \<and> validateInputs scenario_dom
   \<and> \<not> isl (applyAndNext_s (scenario_state_s, scenario_dom))
   \<and> images (projr (applyAndNext_s (scenario_state_s, scenario_dom))) = [example_file ''IMG_001.jpg'']
   \<and> currentIndex_s (projr (applyAndNext_s (scenario_state_s, scenario_dom))) = 0"
proof -
  let ?s = "scenario_state\<lparr>processedFiles := example_ledger\<rparr>"
  have v: "validateForm scenario_form"
    by code_simp
  have vs: "validateInputs scenario_dom"
    by code_simp
  have r: "\<not> isl (applyAndNext (?s, scenario_form))"
    by code_simp
  have rs: "\<not> isl (applyAndNext_s (scenario_state_s, scenario_dom))"
    by code_simp
  have k: "lit ''a.jpg'' \<noteq> name (imageFiles ?s ! currentIndex ?s)"
    by code_simp
  have i: "imageFiles ?s = [example_file ''IMG_001.jpg'']"
    by (simp add: scenario_state_def)
  have j: "images scenario_state_s = [example_file ''IMG_001.jpg'']"
      "currentIndex_s scenario_state_s = 0"
    by (simp_all add: scenario_state_s_def)
  have p: "processedFiles ?s = example_ledger"
    by simp
  obtain sd' where sd': "applyAndNext (?s, scenario_form) = Inr sd'"
    using r by (cases "applyAndNext (?s, scenario_form)") auto
  obtain st' where st': "applyAndNext_s (scenario_state_s, scenario_dom) = Inr st'"
    using rs by (cases "applyAndNext_s (scenario_state_s, scenario_dom)") auto
  show ?thesis
    using v vs k i j p applyAndNext_frame [of scenario_form ?s scenario_dom scenario_state_s]
    unfolding sd' st' by simp
qed

end
